theory Spec2Isabelle
  imports Complex_Main "HOL-Library.Char_ord" "HOL-Library.List_Lexorder"
    "HOL-Library.Multiset"
begin

section \<open>Interview timing configuration (config/interview)\<close>

text \<open>
  \<^verbatim>\<open>export const QUESTION_TIMEOUT_MINUTES = 3;\<close> and
  \<^verbatim>\<open>export const QUESTION_TIME_LIMIT_MS = QUESTION_TIMEOUT_MINUTES * 60 * 1000;\<close>
\<close>

definition QUESTION_TIMEOUT_MINUTES :: int where
  "QUESTION_TIMEOUT_MINUTES = 3"

definition QUESTION_TIME_LIMIT_MS :: int where
  "QUESTION_TIME_LIMIT_MS = QUESTION_TIMEOUT_MINUTES * 60 * 1000"

section \<open>Question-set size (GeminiService.generateInterviewQuestions)\<close>

text \<open>
  The first statement of \<^verbatim>\<open>generateInterviewQuestions\<close>:
  \<^verbatim>\<open>Math.max(3, Math.floor(durationMinutes / QUESTION_TIMEOUT_MINUTES))\<close>.
  The duration is the whole number of minutes chosen in the duration picker; the
  JavaScript division is a division of reals followed by \<^verbatim>\<open>Math.floor\<close>, and the
  model keeps these two steps.
\<close>

definition targetQuestions :: "int \<Rightarrow> int" where
  "targetQuestions durationMinutes =
     max 3 \<lfloor>real_of_int durationMinutes / real_of_int QUESTION_TIMEOUT_MINUTES\<rfloor>"

text \<open>The size as the specification words it, for any per-question limit.\<close>

definition spec_question_count :: "int \<Rightarrow> int \<Rightarrow> int" where
  "spec_question_count durationMinutes perQuestionLimitMinutes =
     max 3 (durationMinutes div perQuestionLimitMinutes)"

section \<open>JavaScript strings\<close>

text \<open>
  A JavaScript string is a sequence of 16-bit code units. The model uses \<^typ>\<open>string\<close>,
  whose characters are the code units below 256 (ASCII and Latin-1), which covers every
  string the properties below speak about; \<open>charCodeAt\<close> is \<^const>\<open>of_char\<close>.
\<close>

definition charCode :: "char \<Rightarrow> int" where
  "charCode c = of_char c"

text \<open>
  White space for \<^verbatim>\<open>String.prototype.trim\<close> and for \<^verbatim>\<open>\s\<close> in a regular
  expression: tab, line feed, vertical tab, form feed, carriage return, space and
  no-break space (the members of the ECMAScript classes WhiteSpace and LineTerminator
  below 256).
\<close>

definition is_space :: "char \<Rightarrow> bool" where
  "is_space c = (charCode c \<in> {9, 10, 11, 12, 13, 32, 160})"

definition trim :: "string \<Rightarrow> string" where
  "trim s = rev (dropWhile is_space (rev (dropWhile is_space s)))"

text \<open>
  \<^verbatim>\<open>toLowerCase\<close>: \<open>A\<close>..\<open>Z\<close> and the Latin-1 capitals (U+00C0..U+00DE but the
  multiplication sign U+00D7) move up by 32; every other code unit below 256 is kept.
\<close>

definition toLowerCase_char :: "char \<Rightarrow> char" where
  "toLowerCase_char c =
     (let n = charCode c in
      if (65 \<le> n \<and> n \<le> 90) \<or> (192 \<le> n \<and> n \<le> 222 \<and> n \<noteq> 215)
      then char_of (n + 32) else c)"

definition toLowerCase :: "string \<Rightarrow> string" where
  "toLowerCase s = map toLowerCase_char s"

text \<open>\<^verbatim>\<open>Array.prototype.join\<close>.\<close>

fun join :: "string \<Rightarrow> string list \<Rightarrow> string" where
  "join sep [] = []"
| "join sep [x] = x"
| "join sep (x # y # ys) = x @ sep @ join sep (y # ys)"

text \<open>
  \<^verbatim>\<open>Number.prototype.toString(radix)\<close> on a non-negative integer, for a radix from 2
  to 36: digits \<open>0\<close>..\<open>9\<close>, then \<open>a\<close>..\<open>z\<close>. It is used with radix 36 on an absolute
  value, and with radix 10 where a template literal prints a count or an index.
\<close>

definition digit_char :: "int \<Rightarrow> char" where
  "digit_char d = (if d < 10 then char_of (48 + d) else char_of (87 + d))"

function toStringRadix :: "int \<Rightarrow> int \<Rightarrow> string" where
  "toStringRadix radix n =
     (if radix < 2 \<or> n < radix then [digit_char n]
      else toStringRadix radix (n div radix) @ [digit_char (n mod radix)])"
  by pat_completeness auto
termination
  by (relation "measure (\<lambda>(radix, n). nat n)") (auto intro: int_div_less_self)

section \<open>Resume storage (storage/indexedDB)\<close>

text \<open>
  \<^verbatim>\<open>ResumeData\<close> has further fields (email, phone, summary, experience, education,
  projects); \<^verbatim>\<open>generateResumeId\<close> reads the name and the skills only, and the record's
  extension stands for the rest.
\<close>

record ResumeData =
  name :: string
  skills :: "string list"

text \<open>
  \<^verbatim>\<open>hash | 0\<close> and the result of \<^verbatim>\<open><<\<close> are 32-bit two's complement integers:
  \<open>ToInt32\<close> of the exact integer result.
\<close>

definition toInt32 :: "int \<Rightarrow> int" where
  "toInt32 x = (x + 2 ^ 31) mod 2 ^ 32 - 2 ^ 31"

text \<open>
  One round of the loop:
  \<^verbatim>\<open>hash = ((hash << 5) - hash) + char; hash = hash | 0;\<close>
\<close>

definition hash_step :: "int \<Rightarrow> char \<Rightarrow> int" where
  "hash_step hash c = toInt32 ((toInt32 (hash * 2 ^ 5) - hash) + charCode c)"

definition normalized :: "'a ResumeData_scheme \<Rightarrow> string" where
  "normalized resume =
     trim (toLowerCase (name resume)) @ ''|'' @ toLowerCase (join '','' (sort (skills resume)))"

text \<open>
  \<^verbatim>\<open>skills.slice().sort()\<close> compares the strings code unit by code unit, which is the
  lexicographic order of \<^typ>\<open>string\<close>; the array is sorted before the joined text is
  lowercased, as in the source.
\<close>

definition generateResumeId :: "'a ResumeData_scheme \<Rightarrow> string" where
  "generateResumeId resume =
     ''resume_'' @ toStringRadix 36 \<bar>foldl hash_step 0 (normalized resume)\<bar>"

record 'a StoredResume =
  sr_id :: string
  sr_data :: "'a ResumeData_scheme"
  createdAt :: int
  lastUsed :: int

text \<open>
  \<^verbatim>\<open>saveResume\<close> on the object store \<open>resumes\<close>, a map from id to record. The
  request of \<open>store.get\<close> or of \<open>store.put\<close> may fail, which rejects the promise.
\<close>

datatype db_error = GetFailed | PutFailed

definition saveResume ::
  "bool \<Rightarrow> bool \<Rightarrow> int \<Rightarrow> 'a ResumeData_scheme \<Rightarrow> (string \<rightharpoonup> 'a StoredResume)
     \<Rightarrow> db_error + ((string \<rightharpoonup> 'a StoredResume) \<times> string)" where
  "saveResume get_ok put_ok now resume store =
     (let id = generateResumeId resume in
      if \<not> get_ok then Inl GetFailed
      else
        let existing = store id;
            storedResume = \<lparr>sr_id = id, sr_data = resume,
              createdAt = (case existing of Some e \<Rightarrow> createdAt e | None \<Rightarrow> now),
              lastUsed = now\<rparr>
        in if \<not> put_ok then Inl PutFailed else Inr (store(id \<mapsto> storedResume), id))"

section \<open>Session lock (storage/sessionLock)\<close>

record SessionLock =
  sessionId :: string
  lockedAt :: int

definition LOCK_TIMEOUT_MS :: int where
  "LOCK_TIMEOUT_MS = 2 * 60 * 60 * 1000"

text \<open>
  What the module reads and writes: the \<open>localStorage\<close> item under \<open>LOCK_KEY\<close> (the
  module itself is its only writer, always with the JSON text of a lock record, so the
  item is a record or absent), the browser's Web Lock named \<open>LOCK_KEY\<close> (held by some
  tab, or free) and the module variable \<open>activeLockRelease\<close> of the calling tab (set
  while this tab holds the Web Lock).
\<close>

record lock_env =
  item :: "SessionLock option"
  webLockHeld :: bool
  activeLockRelease :: bool

definition getLock :: "lock_env \<Rightarrow> SessionLock option" where
  "getLock env = item env"

definition setLock :: "SessionLock \<Rightarrow> lock_env \<Rightarrow> lock_env" where
  "setLock lock env = env\<lparr>item := Some lock\<rparr>"

definition clearLock :: "lock_env \<Rightarrow> lock_env" where
  "clearLock env = env\<lparr>item := None\<rparr>"

text \<open>
  \<^verbatim>\<open>acquireLockWithWebLocks\<close>: \<open>navigator.locks.request\<close> with \<open>ifAvailable\<close> hands
  the callback no lock when the Web Lock is held; otherwise the tab takes it, writes its
  record and keeps the resolver of the pending promise.
\<close>

definition acquireLockWithWebLocks :: "int \<Rightarrow> string \<Rightarrow> lock_env \<Rightarrow> bool \<times> lock_env" where
  "acquireLockWithWebLocks now sid env =
     (if webLockHeld env then (False, env)
      else (True, env\<lparr>item := Some \<lparr>sessionId = sid, lockedAt = now\<rparr>,
                        webLockHeld := True, activeLockRelease := True\<rparr>))"

text \<open>
  \<^verbatim>\<open>acquireLockWithLocalStorage\<close> runs in three pieces, separated by its two
  \<open>await\<close>s (timers of 100 ms and 50 ms); each piece runs to completion before
  anything else touches the item.
\<close>

datatype settle_result = Return bool | Rewritten

definition ls_write :: "int \<Rightarrow> string \<Rightarrow> lock_env \<Rightarrow> SessionLock \<times> lock_env" where
  "ls_write now sid env =
     (let ourLock = \<lparr>sessionId = sid, lockedAt = now\<rparr>
      in (ourLock, env\<lparr>item := Some ourLock\<rparr>))"

definition weWin :: "SessionLock \<Rightarrow> SessionLock \<Rightarrow> bool" where
  "weWin ourLock current =
     (lockedAt ourLock < lockedAt current
      \<or> (lockedAt ourLock = lockedAt current \<and> sessionId ourLock < sessionId current))"

definition ls_settle :: "SessionLock \<Rightarrow> lock_env \<Rightarrow> settle_result \<times> lock_env" where
  "ls_settle ourLock env =
     (case getLock env of
        None \<Rightarrow> (Return False, env)
      | Some current \<Rightarrow>
          if sessionId current = sessionId ourLock then (Return True, env)
          else if weWin ourLock current then (Rewritten, env\<lparr>item := Some ourLock\<rparr>)
          else (Return False, env))"

definition ls_verify :: "string \<Rightarrow> lock_env \<Rightarrow> bool" where
  "ls_verify sid env =
     (case getLock env of None \<Rightarrow> False | Some verify \<Rightarrow> sessionId verify = sid)"

text \<open>
  The three pieces in a row. While the call waits on a timer, other tabs may write the
  item: \<open>others1\<close> is what they make of it during the 100 ms wait and \<open>others2\<close>
  during the 50 ms wait (the identity when no other tab writes).
\<close>

definition acquireLockWithLocalStorage ::
  "int \<Rightarrow> string \<Rightarrow> (SessionLock option \<Rightarrow> SessionLock option)
     \<Rightarrow> (SessionLock option \<Rightarrow> SessionLock option) \<Rightarrow> lock_env \<Rightarrow> bool \<times> lock_env" where
  "acquireLockWithLocalStorage now sid others1 others2 env =
     (let (ourLock, env1) = ls_write now sid env;
          env1' = env1\<lparr>item := others1 (item env1)\<rparr>
      in
      case ls_settle ourLock env1' of
        (Return b, env2) \<Rightarrow> (b, env2)
      | (Rewritten, env2) \<Rightarrow>
          (let env2' = env2\<lparr>item := others2 (item env2)\<rparr>
           in (ls_verify sid env2', env2')))"

text \<open>
  \<^verbatim>\<open>acquireLock\<close> starts with its staleness check: \<open>None\<close> when another session's
  record is younger than the timeout (the call returns false), otherwise the item to go
  on with, cleared when another session's record is stale. \<open>now\<close> is the clock at this
  check.
\<close>

definition staleness_check :: "int \<Rightarrow> string \<Rightarrow> lock_env \<Rightarrow> lock_env option" where
  "staleness_check now sid env =
     (case getLock env of
        None \<Rightarrow> Some env
      | Some existing \<Rightarrow>
          if sessionId existing \<noteq> sid then
            (if now - lockedAt existing < LOCK_TIMEOUT_MS then None
             else Some (clearLock env))
          else Some env)"

text \<open>
  \<^verbatim>\<open>acquireLock\<close>. \<open>supportsWebLocks\<close> is a constant of the browser; \<open>now'\<close> is the
  clock when the record is written; \<open>others1\<close> and \<open>others2\<close> are the other tabs'
  writes during the two waits of the fallback.
\<close>

definition acquireLock ::
  "bool \<Rightarrow> int \<Rightarrow> int \<Rightarrow> (SessionLock option \<Rightarrow> SessionLock option)
     \<Rightarrow> (SessionLock option \<Rightarrow> SessionLock option) \<Rightarrow> string \<Rightarrow> lock_env
     \<Rightarrow> bool \<times> lock_env" where
  "acquireLock supportsWebLocks now now' others1 others2 sid env =
     (case staleness_check now sid env of
        None \<Rightarrow> (False, env)
      | Some env1 \<Rightarrow>
          if supportsWebLocks then acquireLockWithWebLocks now' sid env1
          else acquireLockWithLocalStorage now' sid others1 others2 env1)"

definition releaseLock :: "string \<Rightarrow> lock_env \<Rightarrow> lock_env" where
  "releaseLock sid env =
     (case getLock env of
        None \<Rightarrow> env
      | Some existing \<Rightarrow>
          if sessionId existing = sid then
            (let env1 = clearLock env in
             if activeLockRelease env1
             then env1\<lparr>webLockHeld := False, activeLockRelease := False\<rparr>
             else env1)
          else env)"

definition isBlocked :: "int \<Rightarrow> lock_env \<Rightarrow> bool \<times> lock_env" where
  "isBlocked now env =
     (case getLock env of
        None \<Rightarrow> (False, env)
      | Some existing \<Rightarrow>
          if now - lockedAt existing \<ge> LOCK_TIMEOUT_MS then (False, clearLock env)
          else (True, env))"

definition getBlockingSessionId :: "int \<Rightarrow> lock_env \<Rightarrow> string option" where
  "getBlockingSessionId now env =
     (case getLock env of
        None \<Rightarrow> None
      | Some existing \<Rightarrow>
          if now - lockedAt existing \<ge> LOCK_TIMEOUT_MS then None
          else Some (sessionId existing))"

definition forceReleaseLock :: "lock_env \<Rightarrow> lock_env" where
  "forceReleaseLock env =
     (let env1 = clearLock env in
      if activeLockRelease env1
      then env1\<lparr>webLockHeld := False, activeLockRelease := False\<rparr>
      else env1)"

definition refreshLock :: "int \<Rightarrow> string \<Rightarrow> lock_env \<Rightarrow> bool \<times> lock_env" where
  "refreshLock now sid env =
     (case getLock env of
        None \<Rightarrow> (False, env)
      | Some existing \<Rightarrow>
          if sessionId existing = sid
          then (True, setLock \<lparr>sessionId = sid, lockedAt = now\<rparr> env)
          else (False, env))"

subsection \<open>Two tabs on the fallback path\<close>

text \<open>
  Two tabs of a browser without Web Locks, each calling \<^verbatim>\<open>acquireLock\<close> for its own
  session id, share the item. A tab is at one of five places: before its staleness check,
  between the check and its write, waiting for the 100 ms timer with its record
  \<open>ourLock\<close>, waiting for the 50 ms timer after a rewrite made at the given time, or
  returned. Inside one tab the check and the write follow each other at once, but tabs
  run side by side, so a step of the other tab may fall between them. A timer callback
  never runs before its delay has passed; it may run later.
\<close>

datatype tab_pc = NotStarted | Checked | Settling SessionLock | Verifying int | Returned bool

fun tab_step :: "int \<Rightarrow> string \<Rightarrow> tab_pc \<Rightarrow> lock_env \<Rightarrow> (tab_pc \<times> lock_env) option" where
  "tab_step now sid NotStarted env =
     (case staleness_check now sid env of
        None \<Rightarrow> Some (Returned False, env)
      | Some env1 \<Rightarrow> Some (Checked, env1))"
| "tab_step now sid Checked env =
     (let (ourLock, env') = ls_write now sid env in Some (Settling ourLock, env'))"
| "tab_step now sid (Settling ourLock) env =
     (if now < lockedAt ourLock + 100 then None
      else case ls_settle ourLock env of
             (Return b, env') \<Rightarrow> Some (Returned b, env')
           | (Rewritten, env') \<Rightarrow> Some (Verifying now, env'))"
| "tab_step now sid (Verifying t) env =
     (if now < t + 50 then None else Some (Returned (ls_verify sid env), env))"
| "tab_step now sid (Returned b) env = None"

datatype tab_name = TabA | TabB

record tabs =
  clock :: int
  pcA :: tab_pc
  pcB :: tab_pc
  shared :: lock_env

text \<open>
  A schedule names, step by step, the tab whose next piece runs and the clock reading at
  that moment; the clock never goes back. A step that is not enabled makes the schedule
  invalid (\<open>None\<close>).
\<close>

fun run_tabs :: "string \<Rightarrow> string \<Rightarrow> (tab_name \<times> int) list \<Rightarrow> tabs \<Rightarrow> tabs option" where
  "run_tabs sidA sidB [] s = Some s"
| "run_tabs sidA sidB ((TabA, now) # sched) s =
     (if now < clock s then None
      else case tab_step now sidA (pcA s) (shared s) of
             None \<Rightarrow> None
           | Some (pc', env') \<Rightarrow>
               run_tabs sidA sidB sched (s\<lparr>clock := now, pcA := pc', shared := env'\<rparr>))"
| "run_tabs sidA sidB ((TabB, now) # sched) s =
     (if now < clock s then None
      else case tab_step now sidB (pcB s) (shared s) of
             None \<Rightarrow> None
           | Some (pc', env') \<Rightarrow>
               run_tabs sidA sidB sched (s\<lparr>clock := now, pcB := pc', shared := env'\<rparr>))"

definition no_lock :: lock_env where
  "no_lock = \<lparr>item = None, webLockHeld = False, activeLockRelease = False\<rparr>"

definition tabs_init :: tabs where
  "tabs_init = \<lparr>clock = 0, pcA = NotStarted, pcB = NotStarted, shared = no_lock\<rparr>"

section \<open>Question timer (hooks/useQuestionTimer)\<close>

definition WRAP_UP_WARNING_THRESHOLD_MS :: int where
  "WRAP_UP_WARNING_THRESHOLD_MS = 30 * 1000"

text \<open>
  The hook's state: \<open>questionStartTime\<close> and \<open>questionElapsed\<close> (React state), the two
  fired-flags \<open>timeUpTriggeredRef\<close> and \<open>wrapUpWarningTriggeredRef\<close> (refs, written at
  once), and the interval the timer effect has set up. The interval's callback is a
  closure over the \<open>questionStartTime\<close> of the render in which the effect ran, so
  \<open>interval\<close> carries that value; it is \<open>None\<close> while the timer is inactive or paused.
\<close>

record timer =
  questionStartTime :: int
  questionElapsed :: int
  timeUpTriggered :: bool
  wrapUpWarningTriggered :: bool
  interval :: "int option"

text \<open>A call of \<open>onTimeUpRef.current\<close> or of \<open>onWrapUpWarningRef.current\<close>.\<close>

datatype timer_callback = OnTimeUp | OnWrapUpWarning

definition handleTimeUp :: "timer \<Rightarrow> timer \<times> timer_callback list" where
  "handleTimeUp t =
     (if timeUpTriggered t then (t, [])
      else (t\<lparr>timeUpTriggered := True\<rparr>, [OnTimeUp]))"

text \<open>
  The body of the interval callback, run with the clock reading \<open>now\<close> and the start
  time \<open>start\<close> its closure holds. The result is the new state and the callbacks fired,
  in order.
\<close>

definition interval_callback :: "int \<Rightarrow> int \<Rightarrow> timer \<Rightarrow> timer \<times> timer_callback list" where
  "interval_callback start now t =
     (if timeUpTriggered t then (t, [])
      else
        let elapsed = now - start;
            t1 = t\<lparr>questionElapsed := elapsed\<rparr>;
            remaining = QUESTION_TIME_LIMIT_MS - elapsed;
            (t2, fired1) =
              (if remaining \<le> WRAP_UP_WARNING_THRESHOLD_MS \<and> \<not> wrapUpWarningTriggered t1
               then (t1\<lparr>wrapUpWarningTriggered := True\<rparr>, [OnWrapUpWarning])
               else (t1, []));
            (t3, fired2) =
              (if elapsed \<ge> QUESTION_TIME_LIMIT_MS then handleTimeUp t2 else (t2, []))
        in (t3, fired1 @ fired2))"

text \<open>A tick of the interval, if there is one.\<close>

definition tick :: "int \<Rightarrow> timer \<Rightarrow> timer \<times> timer_callback list" where
  "tick now t =
     (case interval t of
        None \<Rightarrow> (t, [])
      | Some start \<Rightarrow> interval_callback start now t)"

text \<open>
  \<^verbatim>\<open>resetTimer\<close>: the two state setters and the two refs. The interval set up earlier
  keeps running with the start time it captured.
\<close>

definition resetTimer :: "int \<Rightarrow> timer \<Rightarrow> timer" where
  "resetTimer now t =
     t\<lparr>questionStartTime := now, questionElapsed := 0,
       timeUpTriggered := False, wrapUpWarningTriggered := False\<rparr>"

text \<open>
  The timer effect, run after a render with the values of \<open>isActive\<close> and \<open>isPaused\<close>:
  the old interval is cleared, and a new one is set up over the current
  \<open>questionStartTime\<close> unless the timer is inactive or paused.
\<close>

definition timer_effect :: "bool \<Rightarrow> bool \<Rightarrow> timer \<Rightarrow> timer" where
  "timer_effect isActive isPaused t =
     t\<lparr>interval := (if \<not> isActive \<or> isPaused then None else Some (questionStartTime t))\<rparr>"

text \<open>
  What happens to the hook, in order: a tick of the interval, a call of \<open>resetTimer\<close>, a
  render followed by the timer effect. Each comes with its clock reading where it has
  one; the callbacks fired are listed with the clock reading of their tick.
\<close>

datatype timer_event = Tick int | ResetTimer int | Render bool bool

fun timer_run :: "timer_event list \<Rightarrow> timer \<Rightarrow> timer \<times> (timer_callback \<times> int) list" where
  "timer_run [] t = (t, [])"
| "timer_run (Tick now # evs) t =
     (let (t1, fired1) = tick now t;
          (t2, fired2) = timer_run evs t1
      in (t2, map (\<lambda>c. (c, now)) fired1 @ fired2))"
| "timer_run (ResetTimer now # evs) t = timer_run evs (resetTimer now t)"
| "timer_run (Render isActive isPaused # evs) t = timer_run evs (timer_effect isActive isPaused t)"

text \<open>The ticks of one interval, at the given clock readings, from left to right.\<close>

fun ticks :: "int list \<Rightarrow> timer \<Rightarrow> timer \<times> timer_callback list" where
  "ticks [] t = (t, [])"
| "ticks (now # rest) t =
     (let (t1, fired1) = tick now t;
          (t2, fired2) = ticks rest t1
      in (t2, fired1 @ fired2))"

section \<open>Transcription noise filter (services/interviewConfig)\<close>

text \<open>
  The three regular expressions are translated by hand into the tests they perform on a
  whole string.

  \<^verbatim>\<open>SENTENCE_BOUNDARY_REGEX = /[.!?]\s*$/\<close>: at some position there is one of
  \<open>. ! ?\<close>, and only white space follows it up to the end.
\<close>

definition SENTENCE_BOUNDARY_REGEX_test :: "string \<Rightarrow> bool" where
  "SENTENCE_BOUNDARY_REGEX_test s =
     list_ex (\<lambda>i. s ! i \<in> set ''.!?'' \<and> list_all is_space (drop (Suc i) s)) [0..<length s]"

text \<open>
  \<^verbatim>\<open>FILLER_PATTERNS = /^(um+|uh+|hmm+|ah+|er+|oh+|huh|mhm+|mm+)\.?$/i\<close>: the whole
  string, letter case ignored, is one of the tokens, then at most one full stop. A token
  \<open>xy+\<close> is the text \<open>x\<close> followed by one or more \<open>y\<close>.
\<close>

definition rep1 :: "char \<Rightarrow> string \<Rightarrow> bool" where
  "rep1 c s = (s \<noteq> [] \<and> list_all (\<lambda>x. x = c) s)"

definition lit_rep1 :: "string \<Rightarrow> char \<Rightarrow> string \<Rightarrow> bool" where
  "lit_rep1 pre c s = (take (length pre) s = pre \<and> rep1 c (drop (length pre) s))"

definition filler_token :: "string \<Rightarrow> bool" where
  "filler_token s =
     (lit_rep1 ''u'' CHR ''m'' s \<or> lit_rep1 ''u'' CHR ''h'' s \<or> lit_rep1 ''hm'' CHR ''m'' s
      \<or> lit_rep1 ''a'' CHR ''h'' s \<or> lit_rep1 ''e'' CHR ''r'' s \<or> lit_rep1 ''o'' CHR ''h'' s
      \<or> s = ''huh'' \<or> lit_rep1 ''mh'' CHR ''m'' s \<or> lit_rep1 ''m'' CHR ''m'' s)"

text \<open>
  The same tokens said directly, for comparison: \<open>huh\<close>, or one of the stems \<open>u\<close>,
  \<open>hm\<close>, \<open>a\<close>, \<open>e\<close>, \<open>o\<close>, \<open>mh\<close>, \<open>m\<close> followed by one or more copies of the
  letter that the pattern repeats after it.
\<close>

definition filler_word :: "string \<Rightarrow> bool" where
  "filler_word w =
     (w = ''huh''
      \<or> (\<exists>k. 0 < k
            \<and> (w = ''u'' @ replicate k CHR ''m'' \<or> w = ''u'' @ replicate k CHR ''h''
               \<or> w = ''hm'' @ replicate k CHR ''m'' \<or> w = ''a'' @ replicate k CHR ''h''
               \<or> w = ''e'' @ replicate k CHR ''r'' \<or> w = ''o'' @ replicate k CHR ''h''
               \<or> w = ''mh'' @ replicate k CHR ''m'' \<or> w = ''m'' @ replicate k CHR ''m'')))"

definition FILLER_PATTERNS_test :: "string \<Rightarrow> bool" where
  "FILLER_PATTERNS_test s =
     (let l = toLowerCase s
      in filler_token l \<or> (l \<noteq> [] \<and> last l = CHR ''.'' \<and> filler_token (butlast l)))"

text \<open>
  \<^verbatim>\<open>NOISE_PATTERNS = /^[^a-zA-Z]*$|^(.)\1{3,}$/\<close>: no character of the string is a
  letter \<open>a\<close>..\<open>z\<close>, \<open>A\<close>..\<open>Z\<close>; or the string is one character, not a line
  terminator, followed by three or more copies of it.
\<close>

definition is_letter :: "char \<Rightarrow> bool" where
  "is_letter c = (let n = charCode c in (65 \<le> n \<and> n \<le> 90) \<or> (97 \<le> n \<and> n \<le> 122))"

definition is_line_terminator :: "char \<Rightarrow> bool" where
  "is_line_terminator c = (charCode c \<in> {10, 13})"

definition no_letters :: "string \<Rightarrow> bool" where
  "no_letters s = list_all (\<lambda>c. \<not> is_letter c) s"

definition repeated_char :: "string \<Rightarrow> bool" where
  "repeated_char s =
     (case s of
        [] \<Rightarrow> False
      | c # rest \<Rightarrow> \<not> is_line_terminator c \<and> 3 \<le> length rest \<and> list_all (\<lambda>x. x = c) rest)"

definition NOISE_PATTERNS_test :: "string \<Rightarrow> bool" where
  "NOISE_PATTERNS_test s = (no_letters s \<or> repeated_char s)"

definition MIN_MEANINGFUL_LENGTH :: nat where
  "MIN_MEANINGFUL_LENGTH = 2"

text \<open>\<^verbatim>\<open>filterTranscriptionNoise\<close>: \<open>None\<close> is the source's \<open>null\<close>.\<close>

definition filterTranscriptionNoise :: "string \<Rightarrow> string option" where
  "filterTranscriptionNoise text =
     (let trimmed = trim text in
      if length trimmed < MIN_MEANINGFUL_LENGTH then None
      else if FILLER_PATTERNS_test trimmed then None
      else if NOISE_PATTERNS_test trimmed then None
      else Some trimmed)"

section \<open>Transcript manager (hooks/useTranscriptManager) and the panel's callbacks\<close>

datatype role = User | Model

record TranscriptMessage =
  role :: role
  content :: string
  timestamp :: int

text \<open>
  The hook's state and its two buffers. \<open>showTranscriptRef\<close> mirrors \<open>showTranscript\<close>.
\<close>

record transcript_manager =
  transcript :: "TranscriptMessage list"
  showTranscript :: bool
  unreadMessages :: nat
  inputBuffer :: string
  outputBuffer :: string

definition transcript_manager_init :: transcript_manager where
  "transcript_manager_init =
     \<lparr>transcript = [], showTranscript = True, unreadMessages = 0,
      inputBuffer = [], outputBuffer = []\<rparr>"

text \<open>\<open>now\<close> is the reading of \<open>Date.now()\<close> inside \<open>addToTranscript\<close>.\<close>

definition addToTranscript :: "role \<Rightarrow> string \<Rightarrow> int \<Rightarrow> transcript_manager \<Rightarrow> transcript_manager" where
  "addToTranscript r c now m =
     m\<lparr>transcript := transcript m @ [\<lparr>role = r, content = c, timestamp = now\<rparr>],
       unreadMessages := (if \<not> showTranscript m then unreadMessages m + 1
                          else unreadMessages m)\<rparr>"

definition toggleTranscript :: "transcript_manager \<Rightarrow> transcript_manager" where
  "toggleTranscript m =
     (if \<not> showTranscript m then m\<lparr>unreadMessages := 0, showTranscript := True\<rparr>
      else m\<lparr>showTranscript := False\<rparr>)"




text \<open>
  The panel's \<open>onInputTranscript\<close> and \<open>onOutputTranscript\<close>. The source's
  \<^verbatim>\<open>if (filtered)\<close> takes a non-null, non-empty string.
\<close>

definition onInputTranscript :: "string \<Rightarrow> bool \<Rightarrow> int \<Rightarrow> transcript_manager \<Rightarrow> transcript_manager" where
  "onInputTranscript text finished now m =
     (let m1 = m\<lparr>inputBuffer := inputBuffer m @ text\<rparr> in
      if finished \<or> SENTENCE_BOUNDARY_REGEX_test (inputBuffer m1) then
        (let m2 = (case filterTranscriptionNoise (trim (inputBuffer m1)) of
                     None \<Rightarrow> m1
                   | Some filtered \<Rightarrow>
                       if filtered \<noteq> [] then addToTranscript User filtered now m1 else m1)
         in m2\<lparr>inputBuffer := []\<rparr>)
      else m1)"

definition onOutputTranscript :: "string \<Rightarrow> bool \<Rightarrow> int \<Rightarrow> transcript_manager \<Rightarrow> transcript_manager" where
  "onOutputTranscript text finished now m =
     (let m1 = m\<lparr>outputBuffer := outputBuffer m @ text\<rparr> in
      if finished \<or> SENTENCE_BOUNDARY_REGEX_test (outputBuffer m1) then
        (let buffered = trim (outputBuffer m1);
             m2 = (if buffered \<noteq> [] then addToTranscript Model buffered now m1 else m1)
         in m2\<lparr>outputBuffer := []\<rparr>)
      else m1)"



section \<open>Real-time session (hooks/useInterviewSession)\<close>

text \<open>
  Browser objects (the remote session, audio contexts, audio nodes, buffer sources,
  capture tracks) are named by handles. The browser's side records which objects have
  been closed, stopped or disconnected, on which session promises a \<open>then\<close> callback
  that closes the session is waiting, what the remote session has been sent, and how
  many lines \<open>logger.debug\<close> has written. An object in \<open>faulty\<close> throws on every call
  made on it. The other exception of the model is the \<open>TypeError\<close> of reading a
  property of \<open>undefined\<close>.
\<close>

type_synonym handle = nat

datatype exn = Thrown handle | TypeError

record browser =
  faulty :: "handle set"
  closed :: "handle set"
  stopped :: "handle set"
  disconnected :: "handle set"
  close_queued :: "handle set"
  delivered :: "(handle \<times> string) list"
  debug_lines :: nat

definition close_obj :: "handle \<Rightarrow> browser \<Rightarrow> exn + browser" where
  "close_obj h b =
     (if h \<in> faulty b then Inl (Thrown h) else Inr (b\<lparr>closed := insert h (closed b)\<rparr>))"

definition stop_obj :: "handle \<Rightarrow> browser \<Rightarrow> exn + browser" where
  "stop_obj h b =
     (if h \<in> faulty b then Inl (Thrown h) else Inr (b\<lparr>stopped := insert h (stopped b)\<rparr>))"

definition disconnect_obj :: "handle \<Rightarrow> browser \<Rightarrow> exn + browser" where
  "disconnect_obj h b =
     (if h \<in> faulty b then Inl (Thrown h)
      else Inr (b\<lparr>disconnected := insert h (disconnected b)\<rparr>))"


text \<open>\<open>MediaStreamTrack.stop()\<close> has no failure case.\<close>

definition track_stop :: "handle \<Rightarrow> browser \<Rightarrow> exn + browser" where
  "track_stop h b = Inr (b\<lparr>stopped := insert h (stopped b)\<rparr>)"

text \<open>\<^verbatim>\<open>try { op } catch (e) { logger.debug(...) }\<close>\<close>

definition try_catch :: "(browser \<Rightarrow> exn + browser) \<Rightarrow> browser \<Rightarrow> exn + browser" where
  "try_catch op b =
     (case op b of Inl e \<Rightarrow> Inr (b\<lparr>debug_lines := debug_lines b + 1\<rparr>) | Inr b' \<Rightarrow> Inr b')"

text \<open>Sequencing of statements, any of which may throw.\<close>

definition and_then :: "exn + 'a \<Rightarrow> ('a \<Rightarrow> exn + 'b) \<Rightarrow> exn + 'b" where
  "and_then r f = (case r of Inl e \<Rightarrow> Inl e | Inr x \<Rightarrow> f x)"

text \<open>\<open>forEach\<close>: the callback on each element in order; a throw ends the loop.\<close>

fun for_each :: "('a \<Rightarrow> browser \<Rightarrow> exn + browser) \<Rightarrow> 'a list \<Rightarrow> browser \<Rightarrow> exn + browser" where
  "for_each f [] b = Inr b"
| "for_each f (x # xs) b = and_then (f x b) (for_each f xs)"

text \<open>
  The hook's React state and refs. \<open>streamRef\<close> holds the capture stream, given by its
  tracks; \<open>audioSourcesRef\<close> is the set of scheduled playback sources, in insertion
  order.
\<close>

record session =
  isConnected :: bool
  sessionError :: "string option"
  volumeLevel :: real
  aiSpeaking :: bool
  showMicRecovery :: bool
  activeRef :: bool
  sessionRef :: "handle option"
  inputContextRef :: "handle option"
  outputContextRef :: "handle option"
  streamRef :: "handle list option"
  processorRef :: "handle option"
  sourceRef :: "handle option"
  nextStartTimeRef :: real
  audioSourcesRef :: "handle list"
  sessionClosingRef :: bool

text \<open>
  \<^verbatim>\<open>if (ref.current) { try { ref.current.op(); } catch (e) { ... } ref.current = null; }\<close>
  on the browser's side; the caller clears the ref.
\<close>

definition guarded_on :: "handle option \<Rightarrow> (handle \<Rightarrow> browser \<Rightarrow> exn + browser) \<Rightarrow> browser \<Rightarrow> exn + browser" where
  "guarded_on ref op b = (case ref of None \<Rightarrow> Inr b | Some h \<Rightarrow> try_catch (op h) b)"

text \<open>
  \<^verbatim>\<open>stopSession\<close>, statement by statement. \<open>sessionRef\<close> holds the promise of the
  connect call; \<open>stopSession\<close> only attaches to it a \<open>then\<close> callback that will close
  the session, and a \<open>catch\<close> that swallows a rejection: the session is not closed when
  \<open>stopSession\<close> returns. The tracks are stopped outside any \<open>try\<close>.
\<close>

definition stopSession :: "session \<times> browser \<Rightarrow> exn + session \<times> browser" where
  "stopSession sb =
     (let (s, b) = sb;
          s1 = s\<lparr>sessionClosingRef := True, activeRef := False\<rparr>;
          b1 = (case sessionRef s1 of
                  None \<Rightarrow> b
                | Some h \<Rightarrow> b\<lparr>close_queued := insert h (close_queued b)\<rparr>)
      in
      and_then (for_each (\<lambda>h. try_catch (stop_obj h)) (audioSourcesRef s1) b1) (\<lambda>b2.
      and_then (guarded_on (processorRef s1) disconnect_obj b2) (\<lambda>b3.
      and_then (guarded_on (sourceRef s1) disconnect_obj b3) (\<lambda>b4.
      and_then (case streamRef s1 of None \<Rightarrow> Inr b4
                | Some tracks \<Rightarrow> for_each track_stop tracks b4) (\<lambda>b5.
      and_then (guarded_on (inputContextRef s1) close_obj b5) (\<lambda>b6.
      and_then (guarded_on (outputContextRef s1) close_obj b6) (\<lambda>b7.
        Inr (s1\<lparr>sessionRef := None, audioSourcesRef := [], processorRef := None,
                 sourceRef := None, streamRef := None, inputContextRef := None,
                 outputContextRef := None, isConnected := False, volumeLevel := 0,
                 aiSpeaking := False, nextStartTimeRef := 0\<rparr>, b7))))))))"

text \<open>
  The session promise \<open>h\<close> settles. When it resolves, a waiting callback closes the
  session inside its \<open>try\<close>; when it rejects, the \<open>catch\<close> swallows the rejection.
  Either way nothing is waiting on it afterwards.
\<close>

definition session_promise_settled :: "handle \<Rightarrow> bool \<Rightarrow> browser \<Rightarrow> exn + browser" where
  "session_promise_settled h resolved b =
     (if h \<in> close_queued b then
        and_then (if resolved then try_catch (close_obj h) b else Inr b) (\<lambda>b1.
          Inr (b1\<lparr>close_queued := close_queued b1 - {h}\<rparr>))
      else Inr b)"

text \<open>What \<open>stopSession\<close> is to leave behind on the hook's side.\<close>

definition torn_down :: "session \<Rightarrow> bool" where
  "torn_down s =
     (\<not> isConnected s \<and> \<not> activeRef s \<and> sessionClosingRef s \<and> sessionRef s = None
      \<and> audioSourcesRef s = [] \<and> processorRef s = None \<and> sourceRef s = None
      \<and> streamRef s = None \<and> inputContextRef s = None \<and> outputContextRef s = None
      \<and> volumeLevel s = 0 \<and> \<not> aiSpeaking s \<and> nextStartTimeRef s = 0)"


text \<open>
  Between two states of the browser's side: teardown calls only add to what is closed,
  stopped, disconnected or waiting to be closed; they send nothing and make no object
  faulty.
\<close>

definition grows :: "browser \<Rightarrow> browser \<Rightarrow> bool" where
  "grows b b' =
     (faulty b' = faulty b \<and> closed b \<subseteq> closed b' \<and> stopped b \<subseteq> stopped b'
      \<and> disconnected b \<subseteq> disconnected b' \<and> close_queued b \<subseteq> close_queued b'
      \<and> delivered b' = delivered b)"

section \<open>Recovery on reconnect (services/interviewConfig, components/MockInterviewPanel)\<close>

datatype question_type = Initial | FollowUp

record InterviewQuestion =
  q_id :: string
  q_content :: string
  q_type :: question_type
  asked :: bool

















section \<open>Interview flow (hooks/useInterviewFlow)\<close>

datatype persona = Friendly | Professional | Challenging

datatype flow_state =
  INITIAL | BLOCKED | UPLOAD | PARSING | PARSE_ERROR | REVIEW | SETUP | GENERATING
  | GEN_ERROR | INTERVIEWING | ANALYZING | COMPLETE

datatype session_status = InProgress | Completed | Incomplete

text \<open>
  \<^verbatim>\<open>InterviewFeedback\<close> is what the analysis returns; the flow stores it and does not
  look inside. The record's extension stands for its further fields.
\<close>

record InterviewFeedback =
  overallAssessment :: string

record InterviewSessionData =
  isd_id :: string
  isd_resumeData :: ResumeData
  isd_questions :: "InterviewQuestion list"
  isd_currentQuestionIndex :: nat
  isd_transcript :: "TranscriptMessage list"
  isd_persona :: persona
  isd_duration :: int
  isd_status :: session_status
  isd_startedAt :: int
  isd_endedAt :: "int option"
  isd_feedback :: "InterviewFeedback option"

record StoredSession =
  ss_id :: string
  ss_data :: InterviewSessionData
  ss_createdAt :: int
  ss_status :: session_status

text \<open>
  A value thrown, or a rejection: an \<open>Error\<close> with its message, or something that is not
  an \<open>Error\<close>.
\<close>

datatype thrown = ErrorMsg string | OtherValue

text \<open>
  \<^verbatim>\<open>saveSession\<close> on the object store \<open>sessions\<close>. Whether the \<open>put\<close> request succeeds
  is the database's answer: \<open>None\<close>, or the message of the rejection.
\<close>

definition saveSession ::
  "string option \<Rightarrow> InterviewSessionData \<Rightarrow> (string \<rightharpoonup> StoredSession)
     \<Rightarrow> thrown + (string \<rightharpoonup> StoredSession)" where
  "saveSession put_error session store =
     (let storedSession = \<lparr>ss_id = isd_id session, ss_data = session,
            ss_createdAt = isd_startedAt session, ss_status = isd_status session\<rparr>
      in case put_error of
           Some message \<Rightarrow> Inl (ErrorMsg message)
         | None \<Rightarrow> Inr (store(isd_id session \<mapsto> storedSession)))"

text \<open>
  The state of the flow hook that \<open>handleInterviewEnd\<close> reads (through refs kept equal
  to the state) and writes.
\<close>

record flow =
  flowState :: flow_state
  flowError :: "string option"
  fl_sessionId :: string
  fl_resumeData :: "ResumeData option"
  fl_persona :: "persona option"
  fl_duration :: int
  fl_questions :: "InterviewQuestion list"
  fl_currentQuestionIndex :: nat
  fl_transcript :: "TranscriptMessage list"
  fl_feedback :: "InterviewFeedback option"
  fl_startedAt :: int

text \<open>
  Outside the hook: the stored sessions, the lock, how often the parent's
  \<open>onInterviewComplete\<close> callback has been called, and the lines of \<open>logger.error\<close>.
\<close>

record flow_env =
  sessions :: "string \<rightharpoonup> StoredSession"
  locks :: lock_env
  reload_calls :: nat
  error_lines :: nat

text \<open>
  \<^verbatim>\<open>handleInterviewEnd\<close>. The answers of the collaborators are parameters:
  \<open>analysis\<close> is the outcome of \<open>geminiService.analyzeInterviewSession\<close>, \<open>put1\<close> and
  \<open>put2\<close> the database's answers to the \<open>saveSession\<close> of the \<open>try\<close> block and to the
  one of the \<open>catch\<close> block, \<open>now\<close> and \<open>now'\<close> the clock readings for \<open>endedAt\<close> in
  the two blocks. The parent's callback is taken not to throw.
\<close>

definition handleInterviewEnd ::
  "TranscriptMessage list \<Rightarrow> bool \<Rightarrow> thrown + InterviewFeedback \<Rightarrow> string option
     \<Rightarrow> string option \<Rightarrow> int \<Rightarrow> int \<Rightarrow> flow \<times> flow_env \<Rightarrow> flow \<times> flow_env" where
  "handleInterviewEnd finalTranscript wasEarly analysis put1 put2 now now' fe =
     (let (f, env) = fe;
          currentSessionId = fl_sessionId f
      in
      case (fl_resumeData f, fl_persona f) of
        (Some currentResumeData, Some currentPersona) \<Rightarrow>
          (let f1 = f\<lparr>fl_transcript := finalTranscript, flowState := ANALYZING\<rparr>;
               session = (\<lambda>status ended fb.
                 \<lparr>isd_id = currentSessionId, isd_resumeData = currentResumeData,
                  isd_questions = fl_questions f,
                  isd_currentQuestionIndex = fl_currentQuestionIndex f,
                  isd_transcript = finalTranscript, isd_persona = currentPersona,
                  isd_duration = fl_duration f, isd_status = status,
                  isd_startedAt = fl_startedAt f, isd_endedAt = Some ended,
                  isd_feedback = fb\<rparr>);
               catch = (\<lambda>err f2.
                 let message = (case err of ErrorMsg m \<Rightarrow> m
                                | OtherValue \<Rightarrow> ''Failed to analyze interview'');
                     f3 = f2\<lparr>flowError := Some message\<rparr>;
                     env1 = (case saveSession put2 (session Incomplete now' None) (sessions env) of
                               Inr store \<Rightarrow> env\<lparr>sessions := store\<rparr>
                             | Inl e \<Rightarrow> env\<lparr>error_lines := error_lines env + 1\<rparr>);
                     env2 = env1\<lparr>locks := releaseLock currentSessionId (locks env1)\<rparr>;
                     env3 = env2\<lparr>reload_calls := reload_calls env2 + 1\<rparr>
                 in (f3\<lparr>flowState := COMPLETE\<rparr>, env3))
           in
           case analysis of
             Inl err \<Rightarrow> catch err f1
           | Inr interviewFeedback \<Rightarrow>
               (let f2 = f1\<lparr>fl_feedback := Some interviewFeedback\<rparr> in
                case saveSession put1
                       (session (if wasEarly then Incomplete else Completed) now
                          (Some interviewFeedback)) (sessions env) of
                  Inl err \<Rightarrow> catch err f2
                | Inr store \<Rightarrow>
                    (let env1 = env\<lparr>sessions := store\<rparr>;
                         env2 = env1\<lparr>locks := releaseLock currentSessionId (locks env1)\<rparr>;
                         env3 = env2\<lparr>reload_calls := reload_calls env2 + 1\<rparr>
                     in (f2\<lparr>flowState := COMPLETE\<rparr>, env3))))
      | _ \<Rightarrow>
          (f\<lparr>flowError := Some ''Missing interview data - cannot complete session'',
             flowState := COMPLETE\<rparr>,
           env\<lparr>error_lines := error_lines env + 1,
               locks := releaseLock currentSessionId (locks env)\<rparr>))"

text \<open>
  The lock part of \<^verbatim>\<open>handleForceRelease\<close>, the action behind the button of the
  blocked screen: \<open>releaseLock\<close> for the session that \<open>getBlockingSessionId\<close> names.
\<close>

definition handleForceRelease_lock :: "int \<Rightarrow> lock_env \<Rightarrow> lock_env" where
  "handleForceRelease_lock now env =
     (case getBlockingSessionId now env of
        None \<Rightarrow> env
      | Some blockingId \<Rightarrow> releaseLock blockingId env)"

text \<open>
  A call of the lock module made in another tab, one that holds no native lock: the item
  and the native lock are shared, \<open>activeLockRelease\<close> is that tab's own variable and
  is null there; this tab's variable is not touched.
\<close>

definition in_other_tab :: "(lock_env \<Rightarrow> lock_env) \<Rightarrow> lock_env \<Rightarrow> lock_env" where
  "in_other_tab call env =
     (call (env\<lparr>activeLockRelease := False\<rparr>))\<lparr>activeLockRelease := activeLockRelease env\<rparr>"

section \<open>Theorems\<close>

subsection \<open>C10: size of the requested question set\<close>

text \<open>
  C10. The number of questions requested from the generator is
  \<open>max(3, floor(durationMinutes / perQuestionLimitMinutes))\<close> for every duration, the
  per-question limit being the fixed 3 minutes; a 30-minute interview requests exactly
  10 questions.
\<close>

theorem C10_question_count:
  "targetQuestions d = spec_question_count d QUESTION_TIMEOUT_MINUTES
   \<and> QUESTION_TIMEOUT_MINUTES = 3
   \<and> targetQuestions 30 = 10"
proof -
  have "\<lfloor>real_of_int d / real_of_int 3\<rfloor> = d div 3"
    by (rule floor_divide_of_int_eq)
  then show ?thesis
    by (simp add: targetQuestions_def spec_question_count_def QUESTION_TIMEOUT_MINUTES_def)
qed

subsection \<open>C9: the resume id\<close>

text \<open>
  C9. \<open>generateResumeId\<close> is meant to give one id to resumes whose names agree up to
  letter case and whose skill lists agree up to order and letter case. The function
  sorts the skills before it lowercases them, so a change of case that changes the sort
  order changes the id: the skills \<open>a, B\<close> and \<open>a, b\<close> under the same name give the
  normalized texts \<open>ann|b,a\<close> and \<open>ann|a,b\<close>, two ids, and two stored records.
\<close>

theorem C9_resume_id_depends_on_case:
  "normalized \<lparr>name = ''Ann'', skills = [''a'', ''B'']\<rparr> = ''ann|b,a''
   \<and> normalized \<lparr>name = ''Ann'', skills = [''a'', ''b'']\<rparr> = ''ann|a,b''
   \<and> generateResumeId \<lparr>name = ''Ann'', skills = [''a'', ''B'']\<rparr> = ''resume_e36l1g''
   \<and> generateResumeId \<lparr>name = ''Ann'', skills = [''a'', ''b'']\<rparr> = ''resume_e36ls4''"
  by code_simp

text \<open>
  What the function does guarantee: the id depends on the skills only up to their order,
  and on the name only up to letter case and surrounding white space; saving a resume
  with the same id again keeps one record and its creation time.
\<close>

lemma generateResumeId_order:
  assumes "mset (skills r1) = mset (skills r2)"
    and "trim (toLowerCase (name r1)) = trim (toLowerCase (name r2))"
  shows "generateResumeId r1 = generateResumeId r2"
proof -
  have "sort (skills r1) = sort (skills r2)"
    using assms(1) by (metis properties_for_sort sorted_sort mset_sort)
  with assms(2) show ?thesis
    by (simp add: generateResumeId_def normalized_def)
qed

lemma saveResume_again:
  assumes "saveResume True True now r store = Inr (store1, id1)"
    and "generateResumeId r' = generateResumeId r"
    and "saveResume True True now' r' store1 = Inr (store2, id2)"
  shows "id2 = id1 \<and> dom store2 = dom store1
    \<and> map_option createdAt (store2 id1) = map_option createdAt (store1 id1)
    \<and> map_option lastUsed (store2 id1) = Some now'"
  using assms by (auto simp: saveResume_def Let_def)

subsection \<open>C1: two concurrent acquisitions on the fallback path\<close>

text \<open>
  C1. Of two concurrent \<open>acquire\<close> calls for different session ids on the shared-storage
  path, with no lock before, exactly one should return true. In the first schedule both
  tabs pass the staleness check and write in the same millisecond, tab A first; tab B's
  timer fires first, it reads its own record and returns true; tab A then reads B's
  record, wins the tie on the smaller id, rewrites, verifies and returns true as well.
  In the second schedule there is no tie: A writes a millisecond before B, B's timer
  fires on time and A's a little late, and again both return true.
\<close>

theorem C1_both_tabs_acquire:
  "run_tabs ''session_1000_aaa'' ''session_1000_bbb''
     [(TabA, 1000), (TabB, 1000), (TabA, 1000), (TabB, 1000),
      (TabB, 1100), (TabA, 1100), (TabA, 1150)] tabs_init
   = Some \<lparr>clock = 1150, pcA = Returned True, pcB = Returned True,
           shared = \<lparr>item = Some \<lparr>sessionId = ''session_1000_aaa'', lockedAt = 1000\<rparr>,
                     webLockHeld = False, activeLockRelease = False\<rparr>\<rparr>
   \<and> run_tabs ''session_1000_aaa'' ''session_1001_bbb''
     [(TabA, 1000), (TabB, 1000), (TabA, 1000), (TabB, 1001),
      (TabB, 1101), (TabA, 1102), (TabA, 1152)] tabs_init
   = Some \<lparr>clock = 1152, pcA = Returned True, pcB = Returned True,
           shared = \<lparr>item = Some \<lparr>sessionId = ''session_1000_aaa'', lockedAt = 1000\<rparr>,
                     webLockHeld = False, activeLockRelease = False\<rparr>\<rparr>"
  by code_simp

subsection \<open>C2: the staleness timeout\<close>

text \<open>
  C2 as stated: once the other session's record is at least two hours old, the new
  session acquires the lock. On a browser with Web Locks this fails while some tab still
  holds the native lock: the stale record is cleared and the call returns false. On the
  shared-storage path it fails when another tab overwrites the new record during the
  settle wait, here with a record of the same millisecond and a smaller id.
\<close>

theorem C2_stale_record_not_acquired:
  "acquireLock True 7200000 7200000 (\<lambda>x. x) (\<lambda>x. x) ''new''
     \<lparr>item = Some \<lparr>sessionId = ''old'', lockedAt = 0\<rparr>,
      webLockHeld = True, activeLockRelease = False\<rparr>
   = (False, \<lparr>item = None, webLockHeld = True, activeLockRelease = False\<rparr>)
   \<and> acquireLock False 7200000 7200000
       (\<lambda>x. Some \<lparr>sessionId = ''aaa'', lockedAt = 7200000\<rparr>) (\<lambda>x. x) ''new''
     \<lparr>item = Some \<lparr>sessionId = ''old'', lockedAt = 0\<rparr>,
      webLockHeld = False, activeLockRelease = False\<rparr>
   = (False, \<lparr>item = Some \<lparr>sessionId = ''aaa'', lockedAt = 7200000\<rparr>,
              webLockHeld = False, activeLockRelease = False\<rparr>)"
  by code_simp

text \<open>
  C2, amended. The timeout is two hours. With another session's record in place,
  \<open>acquireLock\<close> returns false and changes nothing while the record is younger than the
  timeout. Once the record is at least that old, it is cleared and the attempt runs on
  the cleared item. On the native path the attempt succeeds exactly when no tab holds
  the native lock. On the shared-storage path it succeeds whenever the record it wrote
  is still in place when the settle wait ends, as it is when no other tab writes
  meanwhile. In both cases the item is then the new session's record.
\<close>

theorem C2_acquireLock_timeout:
  assumes "getLock env = Some existing" and "sessionId existing \<noteq> sid"
  shows "LOCK_TIMEOUT_MS = 7200000
    \<and> (now - lockedAt existing < LOCK_TIMEOUT_MS \<longrightarrow>
         acquireLock w now now' o1 o2 sid env = (False, env))
    \<and> (LOCK_TIMEOUT_MS \<le> now - lockedAt existing \<longrightarrow>
         getLock (clearLock env) = None
         \<and> acquireLock w now now' o1 o2 sid env =
             (if w then acquireLockWithWebLocks now' sid (clearLock env)
              else acquireLockWithLocalStorage now' sid o1 o2 (clearLock env))
         \<and> (w \<longrightarrow> fst (acquireLock w now now' o1 o2 sid env) = (\<not> webLockHeld env))
         \<and> (w \<and> \<not> webLockHeld env
              \<or> \<not> w \<and> o1 (Some \<lparr>sessionId = sid, lockedAt = now'\<rparr>)
                          = Some \<lparr>sessionId = sid, lockedAt = now'\<rparr>
              \<longrightarrow> fst (acquireLock w now now' o1 o2 sid env)
                  \<and> getLock (snd (acquireLock w now now' o1 o2 sid env))
                      = Some \<lparr>sessionId = sid, lockedAt = now'\<rparr>))"
proof -
  let ?ours = "\<lparr>sessionId = sid, lockedAt = now'\<rparr>"
  have fresh: "acquireLock w now now' o1 o2 sid env = (False, env)"
    if "now - lockedAt existing < LOCK_TIMEOUT_MS"
    using assms that by (simp add: acquireLock_def staleness_check_def)
  have stale: "acquireLock w now now' o1 o2 sid env =
      (if w then acquireLockWithWebLocks now' sid (clearLock env)
       else acquireLockWithLocalStorage now' sid o1 o2 (clearLock env))"
    if "LOCK_TIMEOUT_MS \<le> now - lockedAt existing"
    using assms that by (simp add: acquireLock_def staleness_check_def)
  have native: "fst (acquireLockWithWebLocks now' sid (clearLock env)) = (\<not> webLockHeld env)"
    "\<not> webLockHeld env \<longrightarrow>
       getLock (snd (acquireLockWithWebLocks now' sid (clearLock env))) = Some ?ours"
    by (simp_all add: acquireLockWithWebLocks_def clearLock_def getLock_def)
  have fallback: "acquireLockWithLocalStorage now' sid o1 o2 (clearLock env)
      = (True, env\<lparr>item := Some ?ours\<rparr>)"
    if "o1 (Some ?ours) = Some ?ours"
    using that
    by (simp add: acquireLockWithLocalStorage_def ls_write_def ls_settle_def
        clearLock_def getLock_def Let_def)
  have cleared: "getLock (clearLock env) = None"
    by (simp add: clearLock_def getLock_def)
  show ?thesis
  proof (cases w)
    case True
    with fresh stale native cleared show ?thesis
      by (simp add: LOCK_TIMEOUT_MS_def)
  next
    case False
    with fresh stale fallback cleared show ?thesis
      by (simp add: LOCK_TIMEOUT_MS_def getLock_def)
  qed
qed

theorem C2_acquireLock_timeout_witness:
  "acquireLock False 7199999 7199999 (\<lambda>x. x) (\<lambda>x. x) ''new''
     \<lparr>item = Some \<lparr>sessionId = ''old'', lockedAt = 0\<rparr>,
      webLockHeld = False, activeLockRelease = False\<rparr>
   = (False, \<lparr>item = Some \<lparr>sessionId = ''old'', lockedAt = 0\<rparr>,
              webLockHeld = False, activeLockRelease = False\<rparr>)
   \<and> fst (acquireLock False 7200000 7200001 (\<lambda>x. x) (\<lambda>x. x) ''new''
       \<lparr>item = Some \<lparr>sessionId = ''old'', lockedAt = 0\<rparr>,
        webLockHeld = False, activeLockRelease = False\<rparr>)
   \<and> getLock (snd (acquireLock False 7200000 7200001 (\<lambda>x. x) (\<lambda>x. x) ''new''
       \<lparr>item = Some \<lparr>sessionId = ''old'', lockedAt = 0\<rparr>,
        webLockHeld = False, activeLockRelease = False\<rparr>))
     = Some \<lparr>sessionId = ''new'', lockedAt = 7200001\<rparr>
   \<and> fst (acquireLock True 7200000 7200001 (\<lambda>x. x) (\<lambda>x. x) ''new''
       \<lparr>item = Some \<lparr>sessionId = ''old'', lockedAt = 0\<rparr>,
        webLockHeld = False, activeLockRelease = False\<rparr>)"
proof -
  let ?old = "\<lparr>sessionId = ''old'', lockedAt = 0\<rparr>"
  let ?env = "\<lparr>item = Some ?old, webLockHeld = False, activeLockRelease = False\<rparr>"
  let ?ours = "\<lparr>sessionId = ''new'', lockedAt = 7200001\<rparr>"
  have h1: "getLock ?env = Some ?old"
    by (simp add: getLock_def)
  have h2: "sessionId ?old \<noteq> ''new''"
    by simp
  have young: "7199999 - lockedAt ?old < LOCK_TIMEOUT_MS"
    and stale: "LOCK_TIMEOUT_MS \<le> 7200000 - lockedAt ?old"
    by (simp_all add: LOCK_TIMEOUT_MS_def)
  have quiet: "(\<lambda>x. x) (Some ?ours) = Some ?ours" and free: "\<not> webLockHeld ?env"
    by simp_all
  from C2_acquireLock_timeout [OF h1 h2, where now = 7199999 and w = False
      and now' = 7199999 and ?o1.0 = "\<lambda>x. x" and ?o2.0 = "\<lambda>x. x"] young
  have a: "acquireLock False 7199999 7199999 (\<lambda>x. x) (\<lambda>x. x) ''new'' ?env = (False, ?env)"
    by blast
  from C2_acquireLock_timeout [OF h1 h2, where now = 7200000 and w = False
      and now' = 7200001 and ?o1.0 = "\<lambda>x. x" and ?o2.0 = "\<lambda>x. x"] stale quiet
  have b: "fst (acquireLock False 7200000 7200001 (\<lambda>x. x) (\<lambda>x. x) ''new'' ?env)"
    and c: "getLock (snd (acquireLock False 7200000 7200001 (\<lambda>x. x) (\<lambda>x. x) ''new'' ?env))
      = Some ?ours"
    by blast+
  from C2_acquireLock_timeout [OF h1 h2, where now = 7200000 and w = True
      and now' = 7200001 and ?o1.0 = "\<lambda>x. x" and ?o2.0 = "\<lambda>x. x"] stale free
  have d: "fst (acquireLock True 7200000 7200001 (\<lambda>x. x) (\<lambda>x. x) ''new'' ?env)"
    by blast
  from a b c d show ?thesis
    by blast
qed

subsection \<open>C3: the timer after a reset\<close>

text \<open>
  C3. The expiry callback should fire once per \<open>resetTimer()\<close> cycle, and only once
  \<open>elapsed \<ge> limit\<close>. The hook is mounted at clock 0 and becomes active; the wrap-up
  warning fires at 150000 and the expiry at 180000. \<open>resetTimer()\<close> is called at 180400
  for the next question, which clears both flags at once, while the interval still holds
  the old start time until the next render. Its tick at 181000 therefore sees an elapsed
  time of 181000 and fires both callbacks again, 600 ms into the new cycle. After the
  render the flag is set, so the tick at 360400, when the new cycle's limit is reached,
  fires nothing.
\<close>

theorem C3_tick_before_render_fires_early:
  "timer_run
     [Render True False, Tick 150000, Tick 180000, ResetTimer 180400, Tick 181000,
      Render True False, Tick 182000, Tick 360400]
     \<lparr>questionStartTime = 0, questionElapsed = 0, timeUpTriggered = False,
      wrapUpWarningTriggered = False, interval = None\<rparr>
   = (\<lparr>questionStartTime = 180400, questionElapsed = 181000, timeUpTriggered = True,
       wrapUpWarningTriggered = True, interval = Some 180400\<rparr>,
      [(OnWrapUpWarning, 150000), (OnTimeUp, 180000),
       (OnWrapUpWarning, 181000), (OnTimeUp, 181000)])"
  by (simp add: tick_def interval_callback_def handleTimeUp_def resetTimer_def
      timer_effect_def QUESTION_TIME_LIMIT_MS_def QUESTION_TIMEOUT_MINUTES_def
      WRAP_UP_WARNING_THRESHOLD_MS_def Let_def)

text \<open>
  What the hook does guarantee: once the timer effect has run after the reset, so that
  the interval holds the new start time, every sequence of ticks fires the expiry
  callback once if some tick sees \<open>elapsed \<ge> limit\<close> and never otherwise, likewise the
  wrap-up callback at \<open>remaining \<le> 30 s\<close>, and after the expiry every tick is ignored.
\<close>

lemma tick_interval [simp]: "interval (fst (tick now t)) = interval t"
  by (simp add: tick_def interval_callback_def handleTimeUp_def Let_def
      split: option.splits prod.splits)

lemma tick_ignored: "timeUpTriggered t \<Longrightarrow> tick now t = (t, [])"
  by (simp add: tick_def interval_callback_def split: option.splits)

lemma ticks_ignored: "timeUpTriggered t \<Longrightarrow> ticks ts t = (t, [])"
  by (induction ts) (simp_all add: tick_ignored)

lemma tick_timeUp:
  "\<not> timeUpTriggered t \<Longrightarrow> interval t = Some start \<Longrightarrow>
     timeUpTriggered (fst (tick now t)) = (QUESTION_TIME_LIMIT_MS \<le> now - start)
     \<and> count_list (snd (tick now t)) OnTimeUp
         = (if QUESTION_TIME_LIMIT_MS \<le> now - start then 1 else 0)"
  by (simp add: tick_def interval_callback_def handleTimeUp_def Let_def split: prod.splits)

lemma tick_wrapUp:
  "\<not> timeUpTriggered t \<Longrightarrow> interval t = Some start \<Longrightarrow>
     wrapUpWarningTriggered (fst (tick now t))
       = (wrapUpWarningTriggered t
          \<or> QUESTION_TIME_LIMIT_MS - (now - start) \<le> WRAP_UP_WARNING_THRESHOLD_MS)
     \<and> count_list (snd (tick now t)) OnWrapUpWarning
         = (if \<not> wrapUpWarningTriggered t
               \<and> QUESTION_TIME_LIMIT_MS - (now - start) \<le> WRAP_UP_WARNING_THRESHOLD_MS
            then 1 else 0)"
  by (auto simp add: tick_def interval_callback_def handleTimeUp_def Let_def
      split: prod.splits)

lemma ticks_timeUp_count:
  "\<not> timeUpTriggered t \<Longrightarrow> interval t = Some start \<Longrightarrow>
     count_list (snd (ticks ts t)) OnTimeUp
       = (if list_ex (\<lambda>now. QUESTION_TIME_LIMIT_MS \<le> now - start) ts then 1 else 0)
     \<and> timeUpTriggered (fst (ticks ts t))
       = list_ex (\<lambda>now. QUESTION_TIME_LIMIT_MS \<le> now - start) ts"
proof (induction ts arbitrary: t)
  case Nil
  then show ?case by simp
next
  case (Cons now ts)
  obtain t1 f1 where step: "tick now t = (t1, f1)"
    by (cases "tick now t")
  from tick_timeUp [OF Cons.prems, of now] step
  have t1: "timeUpTriggered t1 = (QUESTION_TIME_LIMIT_MS \<le> now - start)"
    and f1: "count_list f1 OnTimeUp
      = (if QUESTION_TIME_LIMIT_MS \<le> now - start then 1 else 0)"
    by simp_all
  have iv: "interval t1 = Some start"
    using tick_interval [of now t] step Cons.prems(2) by simp
  show ?case
  proof (cases "QUESTION_TIME_LIMIT_MS \<le> now - start")
    case True
    with t1 have "ticks ts t1 = (t1, [])"
      by (simp add: ticks_ignored)
    with True step t1 f1 show ?thesis
      by simp
  next
    case False
    with t1 have "\<not> timeUpTriggered t1"
      by simp
    from Cons.IH [OF this iv] False step f1 show ?thesis
      by (auto split: prod.splits)
  qed
qed

lemma ticks_wrapUp_count:
  "\<not> timeUpTriggered t \<Longrightarrow> interval t = Some start \<Longrightarrow>
     count_list (snd (ticks ts t)) OnWrapUpWarning
       = (if \<not> wrapUpWarningTriggered t
             \<and> list_ex (\<lambda>now. QUESTION_TIME_LIMIT_MS - (now - start)
                               \<le> WRAP_UP_WARNING_THRESHOLD_MS) ts
          then 1 else 0)"
proof (induction ts arbitrary: t)
  case Nil
  then show ?case by simp
next
  case (Cons now ts)
  obtain t1 f1 where step: "tick now t = (t1, f1)"
    by (cases "tick now t")
  from tick_wrapUp [OF Cons.prems, of now] step
  have w1: "wrapUpWarningTriggered t1
      = (wrapUpWarningTriggered t
         \<or> QUESTION_TIME_LIMIT_MS - (now - start) \<le> WRAP_UP_WARNING_THRESHOLD_MS)"
    and f1: "count_list f1 OnWrapUpWarning
      = (if \<not> wrapUpWarningTriggered t
            \<and> QUESTION_TIME_LIMIT_MS - (now - start) \<le> WRAP_UP_WARNING_THRESHOLD_MS
         then 1 else 0)"
    by simp_all
  from tick_timeUp [OF Cons.prems, of now] step
  have t1: "timeUpTriggered t1 = (QUESTION_TIME_LIMIT_MS \<le> now - start)"
    by simp
  have iv: "interval t1 = Some start"
    using tick_interval [of now t] step Cons.prems(2) by simp
  show ?case
  proof (cases "timeUpTriggered t1")
    case True
    then have rest: "ticks ts t1 = (t1, [])"
      by (simp add: ticks_ignored)
    from True t1 have "QUESTION_TIME_LIMIT_MS - (now - start)
        \<le> WRAP_UP_WARNING_THRESHOLD_MS"
      by (simp add: WRAP_UP_WARNING_THRESHOLD_MS_def)
    with rest step f1 show ?thesis
      by simp
  next
    case False
    from Cons.IH [OF False iv] step f1 w1 show ?thesis
      by (auto split: prod.splits)
  qed
qed

lemma timer_cycle_after_render:
  "count_list (snd (ticks ts (timer_effect True False (resetTimer start t)))) OnTimeUp
       = (if list_ex (\<lambda>now. QUESTION_TIME_LIMIT_MS \<le> now - start) ts then 1 else 0)
   \<and> count_list (snd (ticks ts (timer_effect True False (resetTimer start t)))) OnWrapUpWarning
       = (if list_ex (\<lambda>now. QUESTION_TIME_LIMIT_MS - (now - start) \<le> 30000) ts
          then 1 else 0)
   \<and> timeUpTriggered (fst (ticks ts (timer_effect True False (resetTimer start t))))
       = list_ex (\<lambda>now. QUESTION_TIME_LIMIT_MS \<le> now - start) ts"
proof -
  let ?t0 = "timer_effect True False (resetTimer start t)"
  have flags: "interval ?t0 = Some start" "\<not> timeUpTriggered ?t0"
    "\<not> wrapUpWarningTriggered ?t0"
    by (simp_all add: resetTimer_def timer_effect_def)
  from ticks_timeUp_count [OF flags(2) flags(1), of ts]
    ticks_wrapUp_count [OF flags(2) flags(1), of ts] flags(3)
  show ?thesis
    by (simp add: WRAP_UP_WARNING_THRESHOLD_MS_def)
qed

subsection \<open>C4 and C5: what reaches the transcript\<close>

text \<open>
  The hand-translated tests of the regular expressions, in other words: \<open>c+\<close> is
  some positive number of copies of \<open>c\<close>; a sentence boundary is a last character
  other than white space that is one of \<open>. ! ?\<close>; the back-reference pattern is four
  or more copies of one character.
\<close>

lemma rep1_iff: "rep1 c s \<longleftrightarrow> (\<exists>k. 0 < k \<and> s = replicate k c)"
proof
  assume "rep1 c s"
  then have "s \<noteq> []" and "\<forall>x\<in>set s. x = c"
    by (simp_all add: rep1_def list_all_iff)
  then have "0 < length s \<and> s = replicate (length s) c"
    by (simp add: replicate_length_same)
  then show "\<exists>k. 0 < k \<and> s = replicate k c" ..
next
  assume "\<exists>k. 0 < k \<and> s = replicate k c"
  then show "rep1 c s"
    by (auto simp: rep1_def list_all_iff)
qed

lemma lit_rep1_iff: "lit_rep1 pre c s \<longleftrightarrow> (\<exists>k. 0 < k \<and> s = pre @ replicate k c)"
proof
  assume "lit_rep1 pre c s"
  then obtain k where "0 < k" and "drop (length pre) s = replicate k c"
    and "take (length pre) s = pre"
    by (auto simp: lit_rep1_def rep1_iff)
  then have "s = pre @ replicate k c"
    by (metis append_take_drop_id)
  with \<open>0 < k\<close> show "\<exists>k. 0 < k \<and> s = pre @ replicate k c"
    by blast
next
  assume "\<exists>k. 0 < k \<and> s = pre @ replicate k c"
  then show "lit_rep1 pre c s"
    by (auto simp: lit_rep1_def rep1_iff)
qed

lemma repeated_char_iff:
  "repeated_char s \<longleftrightarrow> (\<exists>c k. 4 \<le> k \<and> \<not> is_line_terminator c \<and> s = replicate k c)"
proof
  assume "repeated_char s"
  then obtain c rest where s: "s = c # rest" and c: "\<not> is_line_terminator c"
    and len: "3 \<le> length rest" and same: "\<forall>x\<in>set rest. x = c"
    by (auto simp: repeated_char_def list_all_iff split: list.splits)
  from same have "rest = replicate (length rest) c"
    by (simp add: replicate_length_same)
  with s have "s = replicate (Suc (length rest)) c"
    by simp
  moreover from len have "4 \<le> Suc (length rest)"
    by simp
  ultimately show "\<exists>c k. 4 \<le> k \<and> \<not> is_line_terminator c \<and> s = replicate k c"
    using c by blast
next
  assume "\<exists>c k. 4 \<le> k \<and> \<not> is_line_terminator c \<and> s = replicate k c"
  then obtain c k where k: "4 \<le> k" and c: "\<not> is_line_terminator c"
    and s: "s = replicate k c"
    by blast
  from k obtain j where "k = Suc j" and "3 \<le> j"
    by (cases k) auto
  with s c show "repeated_char s"
    by (simp add: repeated_char_def list_all_iff)
qed

lemma SENTENCE_BOUNDARY_REGEX_test_iff:
  "SENTENCE_BOUNDARY_REGEX_test s \<longleftrightarrow>
     (\<exists>pre c ws. s = pre @ c # ws \<and> c \<in> set ''.!?'' \<and> (\<forall>w\<in>set ws. is_space w))"
proof
  assume "SENTENCE_BOUNDARY_REGEX_test s"
  then obtain i where i: "i < length s" and c: "s ! i \<in> set ''.!?''"
    and ws: "\<forall>w\<in>set (drop (Suc i) s). is_space w"
    by (auto simp: SENTENCE_BOUNDARY_REGEX_test_def list_ex_iff list_all_iff)
  from i have "s = take i s @ s ! i # drop (Suc i) s"
    by (simp add: id_take_nth_drop)
  with c ws show "\<exists>pre c ws. s = pre @ c # ws \<and> c \<in> set ''.!?'' \<and> (\<forall>w\<in>set ws. is_space w)"
    by blast
next
  assume "\<exists>pre c ws. s = pre @ c # ws \<and> c \<in> set ''.!?'' \<and> (\<forall>w\<in>set ws. is_space w)"
  then obtain pre c ws where s: "s = pre @ c # ws" and c: "c \<in> set ''.!?''"
    and ws: "\<forall>w\<in>set ws. is_space w"
    by blast
  have "length pre < length s" and "s ! length pre = c" and "drop (Suc (length pre)) s = ws"
    using s by simp_all
  with c ws show "SENTENCE_BOUNDARY_REGEX_test s"
    unfolding SENTENCE_BOUNDARY_REGEX_test_def list_ex_iff list_all_iff
    by (metis atLeastLessThan_iff set_upt zero_le)
qed

lemma trim_idem: "trim (trim s) = trim s"
proof -
  define a where "a = dropWhile is_space s"
  define b where "b = dropWhile is_space (rev a)"
  have tr: "trim s = rev b"
    by (simp add: trim_def a_def b_def)
  have b_idem: "dropWhile is_space b = b"
    by (simp add: b_def)
  have "dropWhile is_space (rev b) = rev b"
  proof (cases "b = []")
    case True
    then show ?thesis by simp
  next
    case False
    have "rev a = takeWhile is_space (rev a) @ b"
      by (simp add: b_def)
    with False have "last (rev a) = last b"
      by (metis last_appendR)
    moreover from False have "a \<noteq> []"
      by (auto simp: b_def)
    ultimately have "hd a = last b"
      by (simp add: last_rev)
    moreover have "\<not> is_space (hd a)"
      using \<open>a \<noteq> []\<close> unfolding a_def by (rule hd_dropWhile)
    ultimately have "\<not> is_space (hd (rev b))"
      using False by (simp add: hd_rev)
    with False show ?thesis
      by (cases "rev b") auto
  qed
  with b_idem have "trim (rev b) = rev b"
    by (simp add: trim_def)
  then show ?thesis
    by (simp only: tr)
qed

lemma trim_hd: "trim s \<noteq> [] \<Longrightarrow> \<not> is_space (hd (trim s))"
proof -
  assume ne: "trim s \<noteq> []"
  define a where "a = dropWhile is_space s"
  define b where "b = dropWhile is_space (rev a)"
  have tr: "trim s = rev b"
    by (simp add: trim_def a_def b_def)
  with ne have "b \<noteq> []"
    by simp
  have "rev a = takeWhile is_space (rev a) @ b"
    by (simp add: b_def)
  with \<open>b \<noteq> []\<close> have "last (rev a) = last b"
    by (metis last_appendR)
  moreover from \<open>b \<noteq> []\<close> have "a \<noteq> []"
    by (auto simp: b_def)
  ultimately have "hd a = last b"
    by (simp add: last_rev)
  moreover have "\<not> is_space (hd a)"
    using \<open>a \<noteq> []\<close> unfolding a_def by (rule hd_dropWhile)
  ultimately show ?thesis
    using \<open>b \<noteq> []\<close> by (simp add: tr hd_rev)
qed

lemma line_terminator_is_space: "is_line_terminator c \<Longrightarrow> is_space c"
  by (auto simp: is_line_terminator_def is_space_def)

lemma repeated_char_trim:
  "repeated_char (trim t) \<longleftrightarrow> (\<exists>c k. 4 \<le> k \<and> trim t = replicate k c)"
proof
  assume "repeated_char (trim t)"
  then show "\<exists>c k. 4 \<le> k \<and> trim t = replicate k c"
    by (auto simp: repeated_char_iff)
next
  assume "\<exists>c k. 4 \<le> k \<and> trim t = replicate k c"
  then obtain c k where k: "4 \<le> k" and r: "trim t = replicate k c"
    by blast
  from k r have "trim t \<noteq> []" and "hd (trim t) = c"
    by auto
  with trim_hd [of t] have "\<not> is_space c"
    by simp
  then have "\<not> is_line_terminator c"
    using line_terminator_is_space by blast
  with k r show "repeated_char (trim t)"
    by (auto simp: repeated_char_iff)
qed

lemma filler_token_iff: "filler_token w \<longleftrightarrow> filler_word w"
  unfolding filler_token_def filler_word_def lit_rep1_iff
  by (simp only: ex_disj_distrib conj_disj_distribL) blast

lemma ends_with_iff:
  "(l \<noteq> [] \<and> last l = c \<and> P (butlast l)) \<longleftrightarrow> (\<exists>w. P w \<and> l = w @ [c])"
proof
  assume "l \<noteq> [] \<and> last l = c \<and> P (butlast l)"
  then have "P (butlast l) \<and> l = butlast l @ [c]"
    by (metis append_butlast_last_id)
  then show "\<exists>w. P w \<and> l = w @ [c]" ..
next
  assume "\<exists>w. P w \<and> l = w @ [c]"
  then show "l \<noteq> [] \<and> last l = c \<and> P (butlast l)"
    by auto
qed

lemma FILLER_PATTERNS_test_iff:
  "FILLER_PATTERNS_test s \<longleftrightarrow>
     (\<exists>w. filler_word w \<and> (toLowerCase s = w \<or> toLowerCase s = w @ ''.''))"
proof -
  have "FILLER_PATTERNS_test s \<longleftrightarrow>
      filler_token (toLowerCase s) \<or> (\<exists>w. filler_token w \<and> toLowerCase s = w @ ''.'')"
    unfolding FILLER_PATTERNS_test_def Let_def
    using ends_with_iff [of "toLowerCase s" "CHR ''.''" filler_token] by simp
  then show ?thesis
    unfolding filler_token_iff by blast
qed

lemma onOutputTranscript_flush:
  "finished \<or> SENTENCE_BOUNDARY_REGEX_test (outputBuffer m @ text) \<Longrightarrow>
     onOutputTranscript text finished now m =
       (if trim (outputBuffer m @ text) = [] then m\<lparr>outputBuffer := []\<rparr>
        else (addToTranscript Model (trim (outputBuffer m @ text)) now m)\<lparr>outputBuffer := []\<rparr>)"
  by (auto simp: onOutputTranscript_def addToTranscript_def Let_def)

lemma filter_trim: "filterTranscriptionNoise (trim s) = filterTranscriptionNoise s"
  by (simp add: filterTranscriptionNoise_def trim_idem)

lemma filter_Some_nonempty: "filterTranscriptionNoise s = Some k \<Longrightarrow> k \<noteq> []"
  by (auto simp: filterTranscriptionNoise_def MIN_MEANINGFUL_LENGTH_def Let_def
      split: if_splits)

lemma onInputTranscript_flush:
  "finished \<or> SENTENCE_BOUNDARY_REGEX_test (inputBuffer m @ text) \<Longrightarrow>
     onInputTranscript text finished now m =
       (case filterTranscriptionNoise (inputBuffer m @ text) of
          None \<Rightarrow> m\<lparr>inputBuffer := []\<rparr>
        | Some kept \<Rightarrow> (addToTranscript User kept now m)\<lparr>inputBuffer := []\<rparr>)"
  by (auto simp: onInputTranscript_def filter_trim addToTranscript_def Let_def
      dest: filter_Some_nonempty split: option.splits)

lemma onInputTranscript_keep:
  "\<not> finished \<Longrightarrow> \<not> SENTENCE_BOUNDARY_REGEX_test (inputBuffer m @ text) \<Longrightarrow>
     onInputTranscript text finished now m = m\<lparr>inputBuffer := inputBuffer m @ text\<rparr>"
  by (simp add: onInputTranscript_def)

lemma onOutputTranscript_keep:
  "\<not> finished \<Longrightarrow> \<not> SENTENCE_BOUNDARY_REGEX_test (outputBuffer m @ text) \<Longrightarrow>
     onOutputTranscript text finished now m = m\<lparr>outputBuffer := outputBuffer m @ text\<rparr>"
  by (simp add: onOutputTranscript_def)

text \<open>
  C4 as stated: whenever a channel's buffered text is flushed, it is filtered, so a
  buffered \<open>um\<close> alone is discarded. The assistant channel is not filtered: its finished
  text \<open>um\<close>, which the filter would discard, is added to the transcript.
\<close>

theorem C4_assistant_text_not_filtered:
  "filterTranscriptionNoise ''um'' = None
   \<and> onOutputTranscript ''um'' True 5 transcript_manager_init
       = transcript_manager_init
           \<lparr>transcript := [\<lparr>role = Model, content = ''um'', timestamp = 5\<rparr>]\<rparr>"
  by code_simp

text \<open>
  C4, amended. Whenever a user fragment makes the user channel's buffer flush (the
  fragment is finished, or the buffer then ends a sentence), the fully buffered text goes
  through \<open>filterTranscriptionNoise\<close> and only what it keeps is added, as a user message.
  The filter discards a text exactly when its trimmed length is below 2, or the whole
  trimmed text, letter case ignored, is a filler token with at most one full stop after
  it, or it has no letter \<open>a\<close>..\<open>z\<close>, \<open>A\<close>..\<open>Z\<close>, or it is one character repeated four
  or more times; otherwise it keeps the trimmed text. So \<open>um\<close> alone is discarded and
  \<open>um, well I think...\<close> is kept. Assistant text is not filtered for noise: when the
  assistant channel's buffer flushes, its trimmed text is added as it is, unless it is
  empty.
\<close>

theorem C4_user_flush_is_filtered:
  "(filterTranscriptionNoise text = None \<longleftrightarrow>
      length (trim text) < 2
      \<or> (\<exists>w. filler_word w
            \<and> (toLowerCase (trim text) = w \<or> toLowerCase (trim text) = w @ ''.''))
      \<or> (\<forall>c\<in>set (trim text). \<not> is_letter c)
      \<or> (\<exists>c k. 4 \<le> k \<and> trim text = replicate k c))
   \<and> (filterTranscriptionNoise text \<noteq> None \<longrightarrow>
        filterTranscriptionNoise text = Some (trim text))
   \<and> (finished \<or> SENTENCE_BOUNDARY_REGEX_test (inputBuffer m @ text) \<longrightarrow>
        onInputTranscript text finished now m =
          (case filterTranscriptionNoise (inputBuffer m @ text) of
             None \<Rightarrow> m\<lparr>inputBuffer := []\<rparr>
           | Some kept \<Rightarrow> (addToTranscript User kept now m)\<lparr>inputBuffer := []\<rparr>))
   \<and> (finished \<or> SENTENCE_BOUNDARY_REGEX_test (outputBuffer m @ text) \<longrightarrow>
        onOutputTranscript text finished now m =
          (if trim (outputBuffer m @ text) = [] then m\<lparr>outputBuffer := []\<rparr>
           else (addToTranscript Model (trim (outputBuffer m @ text)) now m)
                  \<lparr>outputBuffer := []\<rparr>))
   \<and> filterTranscriptionNoise ''um'' = None
   \<and> filterTranscriptionNoise ''um, well I think...'' = Some ''um, well I think...''"
proof -
  have "filterTranscriptionNoise text =
     (if length (trim text) < 2 \<or> FILLER_PATTERNS_test (trim text)
         \<or> no_letters (trim text) \<or> repeated_char (trim text)
      then None else Some (trim text))"
    by (simp add: filterTranscriptionNoise_def MIN_MEANINGFUL_LENGTH_def
        NOISE_PATTERNS_test_def Let_def)
  then have exact: "(filterTranscriptionNoise text = None \<longleftrightarrow>
      length (trim text) < 2
      \<or> (\<exists>w. filler_word w
            \<and> (toLowerCase (trim text) = w \<or> toLowerCase (trim text) = w @ ''.''))
      \<or> (\<forall>c\<in>set (trim text). \<not> is_letter c)
      \<or> (\<exists>c k. 4 \<le> k \<and> trim text = replicate k c))"
    and kept: "filterTranscriptionNoise text \<noteq> None \<longrightarrow>
        filterTranscriptionNoise text = Some (trim text)"
    by (simp_all add: FILLER_PATTERNS_test_iff repeated_char_trim no_letters_def list_all_iff)
  have um: "filterTranscriptionNoise ''um'' = None"
    by code_simp
  have well: "filterTranscriptionNoise ''um, well I think...'' = Some ''um, well I think...''"
    by code_simp
  from exact kept um well show ?thesis
    using onInputTranscript_flush [of finished m "text" now]
      onOutputTranscript_flush [of finished m "text" now]
    by blast
qed

theorem C4_user_flush_is_filtered_witness:
  "onInputTranscript ''um'' True 7 transcript_manager_init = transcript_manager_init
   \<and> onInputTranscript '' well I think...'' False 9
        (transcript_manager_init\<lparr>inputBuffer := ''um,''\<rparr>)
       = transcript_manager_init
           \<lparr>transcript := [\<lparr>role = User, content = ''um, well I think...'', timestamp = 9\<rparr>]\<rparr>
   \<and> onOutputTranscript '' um '' True 11 transcript_manager_init
       = transcript_manager_init
           \<lparr>transcript := [\<lparr>role = Model, content = ''um'', timestamp = 11\<rparr>]\<rparr>"
proof -
  have b: "SENTENCE_BOUNDARY_REGEX_test
      (inputBuffer (transcript_manager_init\<lparr>inputBuffer := ''um,''\<rparr>) @ '' well I think...'')"
    by code_simp
  have f1: "filterTranscriptionNoise (inputBuffer transcript_manager_init @ ''um'') = None"
    by code_simp
  have f2: "filterTranscriptionNoise
      (inputBuffer (transcript_manager_init\<lparr>inputBuffer := ''um,''\<rparr>) @ '' well I think...'')
      = Some ''um, well I think...''"
    by code_simp
  have f3: "trim (outputBuffer transcript_manager_init @ '' um '') = ''um''"
    by code_simp
  from C4_user_flush_is_filtered [of "''um''" True transcript_manager_init 7]
  have "onInputTranscript ''um'' True 7 transcript_manager_init
      = (case filterTranscriptionNoise (inputBuffer transcript_manager_init @ ''um'') of
           None \<Rightarrow> transcript_manager_init\<lparr>inputBuffer := []\<rparr>
         | Some kept \<Rightarrow>
             (addToTranscript User kept 7 transcript_manager_init)\<lparr>inputBuffer := []\<rparr>)"
    by blast
  then have 1: "onInputTranscript ''um'' True 7 transcript_manager_init
      = transcript_manager_init\<lparr>inputBuffer := []\<rparr>"
    by (simp only: f1 option.case)
  from C4_user_flush_is_filtered [of "'' well I think...''" False
      "transcript_manager_init\<lparr>inputBuffer := ''um,''\<rparr>" 9] b
  have "onInputTranscript '' well I think...'' False 9
        (transcript_manager_init\<lparr>inputBuffer := ''um,''\<rparr>)
      = (case filterTranscriptionNoise
            (inputBuffer (transcript_manager_init\<lparr>inputBuffer := ''um,''\<rparr>)
              @ '' well I think...'') of
           None \<Rightarrow> transcript_manager_init\<lparr>inputBuffer := ''um,''\<rparr>\<lparr>inputBuffer := []\<rparr>
         | Some kept \<Rightarrow>
             (addToTranscript User kept 9
               (transcript_manager_init\<lparr>inputBuffer := ''um,''\<rparr>))\<lparr>inputBuffer := []\<rparr>)"
    by blast
  then have 2: "onInputTranscript '' well I think...'' False 9
        (transcript_manager_init\<lparr>inputBuffer := ''um,''\<rparr>)
      = (addToTranscript User ''um, well I think...'' 9
          (transcript_manager_init\<lparr>inputBuffer := ''um,''\<rparr>))\<lparr>inputBuffer := []\<rparr>"
    by (simp only: f2 option.case)
  from C4_user_flush_is_filtered [of "'' um ''" True transcript_manager_init 11]
  have "onOutputTranscript '' um '' True 11 transcript_manager_init
      = (if trim (outputBuffer transcript_manager_init @ '' um '') = []
         then transcript_manager_init\<lparr>outputBuffer := []\<rparr>
         else (addToTranscript Model (trim (outputBuffer transcript_manager_init @ '' um ''))
                 11 transcript_manager_init)\<lparr>outputBuffer := []\<rparr>)"
    by blast
  then have 3: "onOutputTranscript '' um '' True 11 transcript_manager_init
      = (addToTranscript Model ''um'' 11 transcript_manager_init)\<lparr>outputBuffer := []\<rparr>"
    by (simp add: f3)
  from 1 2 3 show ?thesis
    by (simp add: transcript_manager_init_def addToTranscript_def)
qed

text \<open>
  C5. On the user channel the fragments \<open>I\<close> (unfinished), \<open> like\<close> (unfinished) and
  \<open> trees.\<close> (finished) give exactly one message, \<open>I like trees.\<close>, stamped with the
  clock of the last fragment. After the first fragment the buffer is \<open>I\<close> and after the
  second \<open>I like\<close>, the transcript still empty: the leading \<open>I\<close> is kept. A fragment
  that is not finished and does not make its channel's buffer end in \<open>.\<close>, \<open>!\<close> or
  \<open>?\<close> (white space may follow) is only appended to the buffer.
\<close>

theorem C5_fragments_make_one_message:
  "onInputTranscript '' trees.'' True t3
     (onInputTranscript '' like'' False t2
       (onInputTranscript ''I'' False t1 transcript_manager_init))
     = transcript_manager_init
         \<lparr>transcript := [\<lparr>role = User, content = ''I like trees.'', timestamp = t3\<rparr>]\<rparr>
   \<and> onInputTranscript ''I'' False t1 transcript_manager_init
       = transcript_manager_init\<lparr>inputBuffer := ''I''\<rparr>
   \<and> onInputTranscript '' like'' False t2
       (onInputTranscript ''I'' False t1 transcript_manager_init)
       = transcript_manager_init\<lparr>inputBuffer := ''I like''\<rparr>
   \<and> (\<not> finished \<and> \<not> SENTENCE_BOUNDARY_REGEX_test (inputBuffer m @ text) \<longrightarrow>
        onInputTranscript text finished now m = m\<lparr>inputBuffer := inputBuffer m @ text\<rparr>)
   \<and> (\<not> finished \<and> \<not> SENTENCE_BOUNDARY_REGEX_test (outputBuffer m @ text) \<longrightarrow>
        onOutputTranscript text finished now m = m\<lparr>outputBuffer := outputBuffer m @ text\<rparr>)"
proof -
  have "onInputTranscript '' trees.'' True t3
     (onInputTranscript '' like'' False t2
       (onInputTranscript ''I'' False t1 transcript_manager_init))
     = transcript_manager_init
         \<lparr>transcript := [\<lparr>role = User, content = ''I like trees.'', timestamp = t3\<rparr>]\<rparr>"
    by code_simp
  moreover have "onInputTranscript ''I'' False t1 transcript_manager_init
       = transcript_manager_init\<lparr>inputBuffer := ''I''\<rparr>"
    by code_simp
  moreover have "onInputTranscript '' like'' False t2
       (onInputTranscript ''I'' False t1 transcript_manager_init)
       = transcript_manager_init\<lparr>inputBuffer := ''I like''\<rparr>"
    by code_simp
  ultimately show ?thesis
    using onInputTranscript_keep [of finished m "text" now]
      onOutputTranscript_keep [of finished m "text" now]
    by blast
qed

theorem C5_fragments_make_one_message_witness:
  "onInputTranscript '' trees.'' True 30
     (onInputTranscript '' like'' False 20
       (onInputTranscript ''I'' False 10 transcript_manager_init))
     = transcript_manager_init
         \<lparr>transcript := [\<lparr>role = User, content = ''I like trees.'', timestamp = 30\<rparr>]\<rparr>
   \<and> onInputTranscript '' like'' False 20 (transcript_manager_init\<lparr>inputBuffer := ''I''\<rparr>)
       = transcript_manager_init\<lparr>inputBuffer := ''I like''\<rparr>
   \<and> onOutputTranscript ''Tell me'' False 40 transcript_manager_init
       = transcript_manager_init\<lparr>outputBuffer := ''Tell me''\<rparr>"
proof -
  have b1: "\<not> SENTENCE_BOUNDARY_REGEX_test
      (inputBuffer (transcript_manager_init\<lparr>inputBuffer := ''I''\<rparr>) @ '' like'')"
    by code_simp
  have b2: "\<not> SENTENCE_BOUNDARY_REGEX_test (outputBuffer transcript_manager_init @ ''Tell me'')"
    by code_simp
  note inst1 = C5_fragments_make_one_message [of 30 20 10 False
      "transcript_manager_init\<lparr>inputBuffer := ''I''\<rparr>" "'' like''" 20]
  note inst2 = C5_fragments_make_one_message [of 30 20 10 False
      transcript_manager_init "''Tell me''" 40]
  from inst1 have "onInputTranscript '' trees.'' True 30
     (onInputTranscript '' like'' False 20
       (onInputTranscript ''I'' False 10 transcript_manager_init))
     = transcript_manager_init
         \<lparr>transcript := [\<lparr>role = User, content = ''I like trees.'', timestamp = 30\<rparr>]\<rparr>"
    by blast
  moreover from inst1 b1
  have "onInputTranscript '' like'' False 20 (transcript_manager_init\<lparr>inputBuffer := ''I''\<rparr>)
      = transcript_manager_init\<lparr>inputBuffer := ''I''\<rparr>
          \<lparr>inputBuffer := inputBuffer (transcript_manager_init\<lparr>inputBuffer := ''I''\<rparr>) @ '' like''\<rparr>"
    by blast
  moreover from inst2 b2
  have "onOutputTranscript ''Tell me'' False 40 transcript_manager_init
      = transcript_manager_init
          \<lparr>outputBuffer := outputBuffer transcript_manager_init @ ''Tell me''\<rparr>"
    by blast
  ultimately show ?thesis
    by (simp add: transcript_manager_init_def)
qed

subsection \<open>C8: teardown\<close>

lemma for_each_track_stop: "for_each track_stop hs b = Inr (b\<lparr>stopped := set hs \<union> stopped b\<rparr>)"
  by (induction hs arbitrary: b) (simp_all add: and_then_def track_stop_def)

lemma grows_trans: "grows a b \<Longrightarrow> grows b c \<Longrightarrow> grows a c"
  by (auto simp: grows_def)

lemma guarded_close:
  "\<exists>b'. guarded_on ref close_obj b = Inr b' \<and> grows b b'
        \<and> set_option ref - faulty b \<subseteq> closed b'"
  by (cases ref) (auto simp: guarded_on_def try_catch_def close_obj_def grows_def)

lemma guarded_disconnect:
  "\<exists>b'. guarded_on ref disconnect_obj b = Inr b' \<and> grows b b'
        \<and> set_option ref - faulty b \<subseteq> disconnected b'"
  by (cases ref) (auto simp: guarded_on_def try_catch_def disconnect_obj_def grows_def)

lemma try_stop:
  "\<exists>b'. try_catch (stop_obj h) b = Inr b' \<and> grows b b' \<and> {h} - faulty b \<subseteq> stopped b'"
  by (auto simp: try_catch_def stop_obj_def grows_def)

lemma for_each_stop:
  "\<exists>b'. for_each (\<lambda>h. try_catch (stop_obj h)) hs b = Inr b' \<and> grows b b'
        \<and> set hs - faulty b \<subseteq> stopped b'"
proof (induction hs arbitrary: b)
  case Nil
  show ?case by (simp add: grows_def)
next
  case (Cons h hs)
  obtain b1 where 1: "try_catch (stop_obj h) b = Inr b1" "grows b b1"
      "{h} - faulty b \<subseteq> stopped b1"
    using try_stop by blast
  obtain b2 where 2: "for_each (\<lambda>h. try_catch (stop_obj h)) hs b1 = Inr b2" "grows b1 b2"
      "set hs - faulty b1 \<subseteq> stopped b2"
    using Cons.IH by blast
  have "for_each (\<lambda>h. try_catch (stop_obj h)) (h # hs) b = Inr b2"
    using 1(1) 2(1) by (simp add: and_then_def)
  moreover have "grows b b2"
    using 1(2) 2(2) by (rule grows_trans)
  moreover have "set (h # hs) - faulty b \<subseteq> stopped b2"
    using 1(2,3) 2(2,3) by (auto simp: grows_def)
  ultimately show ?case by blast
qed

lemma tracks_stop:
  "\<exists>b'. (case tr of None \<Rightarrow> Inr b | Some tracks \<Rightarrow> for_each track_stop tracks b) = Inr b'
        \<and> grows b b' \<and> set (case tr of None \<Rightarrow> [] | Some tracks \<Rightarrow> tracks) \<subseteq> stopped b'"
  by (cases tr) (auto simp: for_each_track_stop grows_def)

lemma stopSession_torn_down: "torn_down s \<Longrightarrow> stopSession (s, b) = Inr (s, b)"
  by (cases s) (simp add: torn_down_def stopSession_def guarded_on_def and_then_def)

text \<open>
  C8. \<open>stopSession()\<close> never throws, whatever the state and whichever objects throw on
  being closed, stopped or disconnected. It leaves \<open>isConnected\<close> false and every ref
  cleared; a second call right after it does not throw either and changes nothing, so
  \<open>isConnected\<close> is false both times. After the call every capture track is stopped, and
  every playback source, processing node and audio context that did not throw is stopped,
  disconnected or closed. The close of the remote session is left waiting on the connect
  promise.
\<close>

theorem C8_stopSession_idempotent:
  "\<exists>s1 b1. stopSession (s, b) = Inr (s1, b1)
     \<and> stopSession (s1, b1) = Inr (s1, b1)
     \<and> \<not> isConnected s1
     \<and> torn_down s1
     \<and> set (case streamRef s of None \<Rightarrow> [] | Some tracks \<Rightarrow> tracks) \<subseteq> stopped b1
     \<and> set (audioSourcesRef s) - faulty b \<subseteq> stopped b1
     \<and> (set_option (processorRef s) \<union> set_option (sourceRef s)) - faulty b
          \<subseteq> disconnected b1
     \<and> (set_option (inputContextRef s) \<union> set_option (outputContextRef s)) - faulty b
          \<subseteq> closed b1
     \<and> set_option (sessionRef s) \<subseteq> close_queued b1"
proof -
  define s1 where "s1 = s\<lparr>sessionClosingRef := True, activeRef := False,
      sessionRef := None, audioSourcesRef := [], processorRef := None,
      sourceRef := None, streamRef := None, inputContextRef := None,
      outputContextRef := None, isConnected := False, volumeLevel := 0,
      aiSpeaking := False, nextStartTimeRef := 0\<rparr>"
  define b1 where "b1 = (case sessionRef s of
      None \<Rightarrow> b
    | Some h \<Rightarrow> b\<lparr>close_queued := insert h (close_queued b)\<rparr>)"
  have 1: "grows b b1" "set_option (sessionRef s) \<subseteq> close_queued b1"
    by (auto simp: b1_def grows_def split: option.splits)
  obtain b2 where 2: "for_each (\<lambda>h. try_catch (stop_obj h)) (audioSourcesRef s) b1 = Inr b2"
      "grows b1 b2" "set (audioSourcesRef s) - faulty b1 \<subseteq> stopped b2"
    using for_each_stop by blast
  obtain b3 where 3: "guarded_on (processorRef s) disconnect_obj b2 = Inr b3" "grows b2 b3"
      "set_option (processorRef s) - faulty b2 \<subseteq> disconnected b3"
    using guarded_disconnect by blast
  obtain b4 where 4: "guarded_on (sourceRef s) disconnect_obj b3 = Inr b4" "grows b3 b4"
      "set_option (sourceRef s) - faulty b3 \<subseteq> disconnected b4"
    using guarded_disconnect by blast
  obtain b5 where 5:
      "(case streamRef s of None \<Rightarrow> Inr b4 | Some tracks \<Rightarrow> for_each track_stop tracks b4)
         = Inr b5"
      "grows b4 b5"
      "set (case streamRef s of None \<Rightarrow> [] | Some tracks \<Rightarrow> tracks) \<subseteq> stopped b5"
    using tracks_stop by blast
  obtain b6 where 6: "guarded_on (inputContextRef s) close_obj b5 = Inr b6" "grows b5 b6"
      "set_option (inputContextRef s) - faulty b5 \<subseteq> closed b6"
    using guarded_close by blast
  obtain b7 where 7: "guarded_on (outputContextRef s) close_obj b6 = Inr b7" "grows b6 b7"
      "set_option (outputContextRef s) - faulty b6 \<subseteq> closed b7"
    using guarded_close by blast
  have run: "stopSession (s, b) = Inr (s1, b7)"
    using 2(1) 3(1) 4(1) 5(1) 6(1) 7(1)
    by (simp add: stopSession_def and_then_def s1_def b1_def Let_def)
  have td: "torn_down s1"
    by (simp add: torn_down_def s1_def)
  then have again: "stopSession (s1, b7) = Inr (s1, b7)"
    by (rule stopSession_torn_down)
  have g67: "grows b6 b7" by (rule 7(2))
  have g57: "grows b5 b7" using 6(2) g67 by (rule grows_trans)
  have g47: "grows b4 b7" using 5(2) g57 by (rule grows_trans)
  have g37: "grows b3 b7" using 4(2) g47 by (rule grows_trans)
  have g27: "grows b2 b7" using 3(2) g37 by (rule grows_trans)
  have g17: "grows b1 b7" using 2(2) g27 by (rule grows_trans)
  have g02: "grows b b2" using 1(1) 2(2) by (rule grows_trans)
  have g03: "grows b b3" using g02 3(2) by (rule grows_trans)
  have g04: "grows b b4" using g03 4(2) by (rule grows_trans)
  have g05: "grows b b5" using g04 5(2) by (rule grows_trans)
  have g06: "grows b b6" using g05 6(2) by (rule grows_trans)
  have tracks: "set (case streamRef s of None \<Rightarrow> [] | Some tracks \<Rightarrow> tracks) \<subseteq> stopped b7"
    using 5(3) g57 by (auto simp: grows_def)
  have sources: "set (audioSourcesRef s) - faulty b \<subseteq> stopped b7"
    using 2(3) 1(1) g27 by (auto simp: grows_def)
  have "set_option (processorRef s) - faulty b \<subseteq> disconnected b7"
    using 3(3) g02 g37 by (auto simp: grows_def)
  moreover have "set_option (sourceRef s) - faulty b \<subseteq> disconnected b7"
    using 4(3) g03 g47 by (auto simp: grows_def)
  ultimately have nodes: "(set_option (processorRef s) \<union> set_option (sourceRef s)) - faulty b
      \<subseteq> disconnected b7"
    by blast
  have "set_option (inputContextRef s) - faulty b \<subseteq> closed b7"
    using 6(3) g05 g67 by (auto simp: grows_def)
  moreover have "set_option (outputContextRef s) - faulty b \<subseteq> closed b7"
    using 7(3) g06 by (auto simp: grows_def)
  ultimately have ctxs: "(set_option (inputContextRef s) \<union> set_option (outputContextRef s))
      - faulty b \<subseteq> closed b7"
    by blast
  have queued: "set_option (sessionRef s) \<subseteq> close_queued b7"
    using 1(2) g17 by (auto simp: grows_def)
  from td have "\<not> isConnected s1"
    by (simp add: torn_down_def)
  with run again td tracks sources nodes ctxs queued show ?thesis
    by blast
qed

theorem C8_stopSession_idempotent_witness:
  "stopSession
     (\<lparr>isConnected = True, sessionError = None, volumeLevel = 1, aiSpeaking = True,
       showMicRecovery = False, activeRef = True, sessionRef = Some 1,
       inputContextRef = Some 2, outputContextRef = Some 3, streamRef = Some [4],
       processorRef = Some 5, sourceRef = Some 6, nextStartTimeRef = 2,
       audioSourcesRef = [7, 8], sessionClosingRef = False\<rparr>,
      \<lparr>faulty = {5, 7}, closed = {}, stopped = {}, disconnected = {}, close_queued = {}, delivered = [],
       debug_lines = 0\<rparr>)
   = Inr
     (\<lparr>isConnected = False, sessionError = None, volumeLevel = 0, aiSpeaking = False,
       showMicRecovery = False, activeRef = False, sessionRef = None,
       inputContextRef = None, outputContextRef = None, streamRef = None,
       processorRef = None, sourceRef = None, nextStartTimeRef = 0,
       audioSourcesRef = [], sessionClosingRef = True\<rparr>,
      \<lparr>faulty = {5, 7}, closed = {2, 3}, stopped = {4, 8}, disconnected = {6},
       close_queued = {1},
       delivered = [], debug_lines = 2\<rparr>)
   \<and> stopSession
     (\<lparr>isConnected = False, sessionError = None, volumeLevel = 0, aiSpeaking = False,
       showMicRecovery = False, activeRef = False, sessionRef = None,
       inputContextRef = None, outputContextRef = None, streamRef = None,
       processorRef = None, sourceRef = None, nextStartTimeRef = 0,
       audioSourcesRef = [], sessionClosingRef = True\<rparr>,
      \<lparr>faulty = {5, 7}, closed = {2, 3}, stopped = {4, 8}, disconnected = {6},
       close_queued = {1},
       delivered = [], debug_lines = 2\<rparr>)
   = Inr
     (\<lparr>isConnected = False, sessionError = None, volumeLevel = 0, aiSpeaking = False,
       showMicRecovery = False, activeRef = False, sessionRef = None,
       inputContextRef = None, outputContextRef = None, streamRef = None,
       processorRef = None, sourceRef = None, nextStartTimeRef = 0,
       audioSourcesRef = [], sessionClosingRef = True\<rparr>,
      \<lparr>faulty = {5, 7}, closed = {2, 3}, stopped = {4, 8}, disconnected = {6},
       close_queued = {1},
       delivered = [], debug_lines = 2\<rparr>)"
proof -
  let ?s0 = "\<lparr>isConnected = True, sessionError = None, volumeLevel = 1, aiSpeaking = True,
       showMicRecovery = False, activeRef = True, sessionRef = Some 1,
       inputContextRef = Some 2, outputContextRef = Some 3, streamRef = Some [4],
       processorRef = Some 5, sourceRef = Some 6, nextStartTimeRef = 2,
       audioSourcesRef = [7, 8], sessionClosingRef = False\<rparr>"
  let ?b0 = "\<lparr>faulty = {5, 7}, closed = {}, stopped = {}, disconnected = {}, close_queued = {}, delivered = [],
       debug_lines = 0\<rparr>"
  have run: "stopSession (?s0, ?b0) = Inr
     (\<lparr>isConnected = False, sessionError = None, volumeLevel = 0, aiSpeaking = False,
       showMicRecovery = False, activeRef = False, sessionRef = None,
       inputContextRef = None, outputContextRef = None, streamRef = None,
       processorRef = None, sourceRef = None, nextStartTimeRef = 0,
       audioSourcesRef = [], sessionClosingRef = True\<rparr>,
      \<lparr>faulty = {5, 7}, closed = {2, 3}, stopped = {4, 8}, disconnected = {6},
       close_queued = {1},
       delivered = [], debug_lines = 2\<rparr>)"
    by (auto simp: stopSession_def guarded_on_def try_catch_def and_then_def close_obj_def
        stop_obj_def disconnect_obj_def track_stop_def)
  from C8_stopSession_idempotent [of ?s0 ?b0]
  obtain s1 b1 where "stopSession (?s0, ?b0) = Inr (s1, b1)"
    and "stopSession (s1, b1) = Inr (s1, b1)"
    by blast
  with run show ?thesis
    by simp
qed

subsection \<open>C6: recovery after a reconnect\<close>










lemma stamps_buffer [simp]:
  "transcript (m\<lparr>inputBuffer := x\<rparr>) = transcript m"
  "transcript (m\<lparr>outputBuffer := y\<rparr>) = transcript m"
  by simp_all











subsection \<open>C7: the end of an interview when the analysis fails\<close>

lemma releaseLock_owner:
  "getLock env = Some l \<Longrightarrow> sessionId l = sid \<Longrightarrow>
     getLock (releaseLock sid env) = None
     \<and> (activeLockRelease env \<longrightarrow> \<not> webLockHeld (releaseLock sid env))"
  by (auto simp: releaseLock_def getLock_def clearLock_def Let_def)

text \<open>
  What the failure path does guarantee, for an interview that has its resume data and
  persona: the error message is stored, the session is saved without feedback and with
  status \<open>incomplete\<close> when the database accepts it, \<open>releaseLock\<close> is called for the
  session's id whether or not the save succeeded, and the flow goes to \<open>COMPLETE\<close>.
  The lock is released when the record still is the session's.
\<close>

lemma handleInterviewEnd_failed_analysis:
  assumes "fl_resumeData f = Some rd" and "fl_persona f = Some pe"
    and "handleInterviewEnd ft wasEarly (Inl err) put1 put2 now now' (f, env) = (f', env')"
  shows "flowState f' = COMPLETE
    \<and> fl_feedback f' = fl_feedback f
    \<and> fl_transcript f' = ft
    \<and> flowError f' = Some (case err of ErrorMsg m \<Rightarrow> m
                             | OtherValue \<Rightarrow> ''Failed to analyze interview'')
    \<and> (put2 = None \<longrightarrow>
         sessions env' = (sessions env)(fl_sessionId f \<mapsto>
           \<lparr>ss_id = fl_sessionId f,
            ss_data = \<lparr>isd_id = fl_sessionId f, isd_resumeData = rd,
              isd_questions = fl_questions f,
              isd_currentQuestionIndex = fl_currentQuestionIndex f,
              isd_transcript = ft, isd_persona = pe, isd_duration = fl_duration f,
              isd_status = Incomplete, isd_startedAt = fl_startedAt f,
              isd_endedAt = Some now', isd_feedback = None\<rparr>,
            ss_createdAt = fl_startedAt f, ss_status = Incomplete\<rparr>))
    \<and> (put2 \<noteq> None \<longrightarrow> sessions env' = sessions env)
    \<and> locks env' = releaseLock (fl_sessionId f) (locks env)
    \<and> (\<forall>l. getLock (locks env) = Some l \<and> sessionId l = fl_sessionId f \<longrightarrow>
          getLock (locks env') = None
          \<and> (activeLockRelease (locks env) \<longrightarrow> \<not> webLockHeld (locks env')))"
proof -
  have f': "f' = f\<lparr>fl_transcript := ft,
      flowError := Some (case err of ErrorMsg m \<Rightarrow> m
                         | OtherValue \<Rightarrow> ''Failed to analyze interview''),
      flowState := COMPLETE\<rparr>"
    using assms by (auto simp: handleInterviewEnd_def Let_def split: option.splits sum.splits)
  have saved: "put2 = None \<longrightarrow>
         sessions env' = (sessions env)(fl_sessionId f \<mapsto>
           \<lparr>ss_id = fl_sessionId f,
            ss_data = \<lparr>isd_id = fl_sessionId f, isd_resumeData = rd,
              isd_questions = fl_questions f,
              isd_currentQuestionIndex = fl_currentQuestionIndex f,
              isd_transcript = ft, isd_persona = pe, isd_duration = fl_duration f,
              isd_status = Incomplete, isd_startedAt = fl_startedAt f,
              isd_endedAt = Some now', isd_feedback = None\<rparr>,
            ss_createdAt = fl_startedAt f, ss_status = Incomplete\<rparr>)"
    using assms by (auto simp: handleInterviewEnd_def saveSession_def Let_def)
  have unsaved: "put2 \<noteq> None \<longrightarrow> sessions env' = sessions env"
    using assms by (auto simp: handleInterviewEnd_def saveSession_def Let_def)
  have lock: "locks env' = releaseLock (fl_sessionId f) (locks env)"
    using assms
    by (auto simp: handleInterviewEnd_def saveSession_def Let_def split: option.splits)
  have gone: "\<forall>l. getLock (locks env) = Some l \<and> sessionId l = fl_sessionId f \<longrightarrow>
          getLock (locks env') = None
          \<and> (activeLockRelease (locks env) \<longrightarrow> \<not> webLockHeld (locks env'))"
    unfolding lock using releaseLock_owner by blast
  from f' saved unsaved lock gone show ?thesis
    by simp
qed

text \<open>
  C7. When the analysis fails, the session should still be saved without feedback, the
  flow should complete, and the lock should be released unconditionally, so that later
  sessions are not blocked. Tab 1 runs the interview \<open>session_1_a\<close> on a browser with
  Web Locks: it holds the native lock and its record is in place. In tab 2, which shows
  the blocked screen, the user presses the force-release button at clock 2000: the
  record is removed, the native lock stays with tab 1. The interview in tab 1 then ends
  and the analysis fails. The session is saved without feedback (status \<open>incomplete\<close>)
  and the flow reaches \<open>COMPLETE\<close>, but \<open>releaseLock\<close> finds no record of the session
  and returns without releasing the native lock: tab 1 still holds it, and
  \<open>acquireLock\<close> for a new session in tab 2 returns false.
\<close>

theorem C7_native_lock_not_released:
  "in_other_tab (handleForceRelease_lock 2000)
     \<lparr>item = Some \<lparr>sessionId = ''session_1_a'', lockedAt = 1000\<rparr>,
      webLockHeld = True, activeLockRelease = True\<rparr>
   = \<lparr>item = None, webLockHeld = True, activeLockRelease = True\<rparr>
   \<and> handleInterviewEnd
        [\<lparr>role = User, content = ''I built a compiler.'', timestamp = 1500\<rparr>] False
        (Inl (ErrorMsg ''quota exceeded'')) None None 9000 9001
        (\<lparr>flowState = INTERVIEWING, flowError = None, fl_sessionId = ''session_1_a'',
          fl_resumeData = Some \<lparr>name = ''Ann'', skills = [''ml'']\<rparr>,
          fl_persona = Some Friendly, fl_duration = 30, fl_questions = [],
          fl_currentQuestionIndex = 0, fl_transcript = [], fl_feedback = None,
          fl_startedAt = 1000\<rparr>,
         \<lparr>sessions = Map.empty,
          locks = \<lparr>item = None, webLockHeld = True, activeLockRelease = True\<rparr>,
          reload_calls = 0, error_lines = 0\<rparr>)
     = (\<lparr>flowState = COMPLETE, flowError = Some ''quota exceeded'',
         fl_sessionId = ''session_1_a'',
         fl_resumeData = Some \<lparr>name = ''Ann'', skills = [''ml'']\<rparr>,
         fl_persona = Some Friendly, fl_duration = 30, fl_questions = [],
         fl_currentQuestionIndex = 0,
         fl_transcript = [\<lparr>role = User, content = ''I built a compiler.'', timestamp = 1500\<rparr>],
         fl_feedback = None, fl_startedAt = 1000\<rparr>,
        \<lparr>sessions = [''session_1_a'' \<mapsto>
           \<lparr>ss_id = ''session_1_a'',
            ss_data = \<lparr>isd_id = ''session_1_a'',
              isd_resumeData = \<lparr>name = ''Ann'', skills = [''ml'']\<rparr>,
              isd_questions = [], isd_currentQuestionIndex = 0,
              isd_transcript =
                [\<lparr>role = User, content = ''I built a compiler.'', timestamp = 1500\<rparr>],
              isd_persona = Friendly, isd_duration = 30, isd_status = Incomplete,
              isd_startedAt = 1000, isd_endedAt = Some 9001, isd_feedback = None\<rparr>,
            ss_createdAt = 1000, ss_status = Incomplete\<rparr>],
         locks = \<lparr>item = None, webLockHeld = True, activeLockRelease = True\<rparr>,
         reload_calls = 1, error_lines = 0\<rparr>)
   \<and> acquireLock True 9500 9500 (\<lambda>x. x) (\<lambda>x. x) ''session_2_b''
       \<lparr>item = None, webLockHeld = True, activeLockRelease = False\<rparr>
     = (False, \<lparr>item = None, webLockHeld = True, activeLockRelease = False\<rparr>)"
  by (simp add: in_other_tab_def handleForceRelease_lock_def getBlockingSessionId_def
      getLock_def releaseLock_def clearLock_def LOCK_TIMEOUT_MS_def
      handleInterviewEnd_def saveSession_def Let_def
      acquireLock_def staleness_check_def acquireLockWithWebLocks_def)

end
